theory Spec2Isabelle
  imports Complex_Main "HOL-Library.Sublist"
begin

section \<open>The stats document and the page state\<close>

text \<open>
  The data loader reads \<^verbatim>\<open>/data/stats.json\<close>. Its fields follow the schema the binders
  use: numeric totals and percentages, one date string, and two top-N lists of
  \<^verbatim>\<open>{unidade, total, percentual}\<close> records. Every field may be missing (\<open>None\<close>, the
  JavaScript \<^verbatim>\<open>undefined\<close> of a property read). JavaScript numbers are modelled by the
  reals they denote; IEEE rounding is not modelled.
\<close>

record item =
  unidade :: "string option"
  total :: "real option"
  percentual :: "real option"

record stats =
  total_relatorios :: "real option"
  total_recomendacoes :: "real option"
  beneficios :: "real option"
  total_unidades :: "real option"
  efetividade :: "real option"
  anos_atuacao :: "real option"
  data_atualizacao :: "string option"
  atendidas :: "real option"
  perc_atendidas :: "real option"
  baixadas :: "real option"
  perc_baixadas :: "real option"
  em_implementacao :: "real option"
  perc_em_implementacao :: "real option"
  pendentes :: "real option"
  perc_pendentes :: "real option"
  unidades_com_beneficios :: "real option"
  media_beneficios_unidade :: "real option"
  top_unidades_beneficios :: "item list option"
  ano_inicio :: "real option"
  ano_fim :: "real option"
  media_rec_ano :: "real option"
  ano_pico :: "real option"
  rec_ano_pico :: "real option"
  top_unidades_recomendacoes :: "item list option"

text \<open>
  What \<^verbatim>\<open>response.json()\<close> can resolve to: any JSON value. \<open>JArr\<close> is a top-level array;
  its elements are never read, only named fields are.
\<close>

datatype json = JNull | JBool bool | JNum real | JStr string | JArr | JObj stats

text \<open>JavaScript truthiness, as tested by \<^verbatim>\<open>if (statsData)\<close> and \<^verbatim>\<open>if (!stats)\<close>.\<close>

fun truthy :: "json \<Rightarrow> bool" where
  "truthy JNull = False"
| "truthy (JBool b) = b"
| "truthy (JNum x) = (x \<noteq> 0)"
| "truthy (JStr s) = (s \<noteq> [])"
| "truthy JArr = True"
| "truthy (JObj st) = True"

definition no_fields :: stats where
  "no_fields = \<lparr> total_relatorios = None, total_recomendacoes = None, beneficios = None,
     total_unidades = None, efetividade = None, anos_atuacao = None, data_atualizacao = None,
     atendidas = None, perc_atendidas = None, baixadas = None, perc_baixadas = None,
     em_implementacao = None, perc_em_implementacao = None, pendentes = None,
     perc_pendentes = None, unidades_com_beneficios = None, media_beneficios_unidade = None,
     top_unidades_beneficios = None, ano_inicio = None, ano_fim = None, media_rec_ano = None,
     ano_pico = None, rec_ano_pico = None, top_unidades_recomendacoes = None \<rparr>"

text \<open>
  Property reads \<^verbatim>\<open>stats.field\<close> on a truthy value: an object gives its fields, a
  number, string, boolean or array has none of these names.
\<close>

fun fieldsOf :: "json \<Rightarrow> stats" where
  "fieldsOf (JObj st) = st"
| "fieldsOf _ = no_fields"

subsection \<open>The document\<close>

text \<open>
  An element carries what the scripts read and write: attributes (\<^verbatim>\<open>id\<close>,
  \<^verbatim>\<open>aria-controls\<close>, \<^verbatim>\<open>aria-expanded\<close>, \<^verbatim>\<open>hidden\<close>, \<^verbatim>\<open>d\<close>, \<^verbatim>\<open>data-*\<close>, ...), the class
  list, the text the element itself holds (all of its text content once \<^verbatim>\<open>textContent\<close>
  has been assigned, since the assignment removes its children), the last string
  assigned to \<^verbatim>\<open>style.width\<close> (the CSS parser is not modelled) and the value of a form
  control. The document is the list of its
  elements in document order, the tree given by the nesting \<open>depth\<close> of each element: the
  descendants of an element are the elements that follow it with a greater depth, up to
  the first that has not. An element is referred to by its position. An element that a
  script has removed from the tree keeps its position and is no longer \<open>attached\<close>.
\<close>

record element =
  attrs :: "string \<rightharpoonup> string"
  classList :: "string list"
  textContent :: string
  style_width :: string
  val :: string
  depth :: nat
  attached :: bool

type_synonym dom = "element list"

text \<open>
  \<^verbatim>\<open>document.getElementById(i)\<close>: the first element of the tree, in document order, whose
  \<^verbatim>\<open>id\<close> attribute is \<open>i\<close>; the empty string is nobody's id.
\<close>

fun getElementById :: "string \<Rightarrow> dom \<Rightarrow> nat option" where
  "getElementById i [] = None"
| "getElementById i (e # es) =
     (if i \<noteq> [] \<and> attached e \<and> attrs e ''id'' = Some i then Some 0
      else map_option Suc (getElementById i es))"

subsection \<open>The page\<close>

datatype failure = FetchRejected | JsonRejected

datatype fetch_outcome = Failed failure | Parsed json

text \<open>
  \<open>statsData\<close> is the global cache, \<open>requests\<close> the URLs fetched so far, \<open>console\<close> what
  \<^verbatim>\<open>console.error\<close> received. The network is a parameter \<open>net\<close>: the outcome of the
  \<open>n\<close>-th request of the page.
\<close>

record page =
  statsData :: json
  requests :: "string list"
  console :: "(string \<times> failure) list"
  document :: dom

section \<open>The stats fetcher\<close>

definition loadStats :: "(nat \<Rightarrow> fetch_outcome) \<Rightarrow> page \<Rightarrow> json \<times> page" where
  "loadStats net s =
     (if truthy (statsData s) then (statsData s, s)
      else
        let s1 = s\<lparr>requests := requests s @ [''/data/stats.json'']\<rparr>
        in case net (length (requests s)) of
             Parsed d \<Rightarrow> (d, s1\<lparr>statsData := d\<rparr>)
           | Failed e \<Rightarrow>
               (JNull, s1\<lparr>console := console s1 @ [(''Erro ao carregar stats.json:'', e)]\<rparr>))"

section \<open>The platform\<close>

text \<open>
  What the scripts take from the JavaScript engine is a parameter: the Number-to-String
  conversion \<open>nts\<close>, the constant \<^verbatim>\<open>Math.PI\<close>, the functions \<^verbatim>\<open>Math.cos\<close> and \<^verbatim>\<open>Math.sin\<close>,
  and the rounding \<open>rnd\<close> that every arithmetic operation applies to its exact result. A
  Number is modelled by the real it denotes; negative zero is not told from zero.
\<close>

record platform =
  nts :: "real \<Rightarrow> string"
  math_pi :: real
  math_cos :: "real \<Rightarrow> real"
  math_sin :: "real \<Rightarrow> real"
  rnd :: "real \<Rightarrow> real"

definition add :: "platform \<Rightarrow> real \<Rightarrow> real \<Rightarrow> real" where
  "add pf a b = rnd pf (a + b)"

definition sub :: "platform \<Rightarrow> real \<Rightarrow> real \<Rightarrow> real" where
  "sub pf a b = rnd pf (a - b)"

definition mul :: "platform \<Rightarrow> real \<Rightarrow> real \<Rightarrow> real" where
  "mul pf a b = rnd pf (a * b)"

definition dvd_num :: "platform \<Rightarrow> real \<Rightarrow> real \<Rightarrow> real" where
  "dvd_num pf a b = rnd pf (a / b)"

section \<open>Formatter utilities\<close>

text \<open>
  The values the binders pass around: a missing field (\<^verbatim>\<open>undefined\<close>), a number or a
  string.
\<close>

datatype jsval = Undefined | Num real | Str string

definition num :: "real option \<Rightarrow> jsval" where
  "num v = (case v of None \<Rightarrow> Undefined | Some x \<Rightarrow> Num x)"

definition str :: "string option \<Rightarrow> jsval" where
  "str v = (case v of None \<Rightarrow> Undefined | Some s \<Rightarrow> Str s)"

datatype error = TypeError

text \<open>
  String conversions, given the platform's Number-to-String. \<open>toStr\<close> is the conversion of
  template literals and of \<^verbatim>\<open>+\<close> with a string; \<open>domString\<close> is the one of the
  \<^verbatim>\<open>textContent\<close> setter, whose type is a nullable string: \<^verbatim>\<open>undefined\<close> is taken as
  \<^verbatim>\<open>null\<close> and gives the empty text.
\<close>

fun toStr :: "(real \<Rightarrow> string) \<Rightarrow> jsval \<Rightarrow> string" where
  "toStr f Undefined = ''undefined''"
| "toStr f (Num x) = f x"
| "toStr f (Str s) = s"

fun domString :: "(real \<Rightarrow> string) \<Rightarrow> jsval \<Rightarrow> string" where
  "domString f Undefined = []"
| "domString f (Num x) = f x"
| "domString f (Str s) = s"

text \<open>Decimal digits of a natural number, and grouping in threes with the pt-BR separator.\<close>

definition digit_char :: "nat \<Rightarrow> char" where
  "digit_char n = ''0123456789'' ! n"

fun digits :: "nat \<Rightarrow> string" where
  "digits n = (if n < 10 then [digit_char n] else digits (n div 10) @ [digit_char (n mod 10)])"

function group3 :: "string \<Rightarrow> string" where
  "group3 ds =
     (if length ds \<le> 3 then ds
      else group3 (take (length ds - 3) ds) @ ''.'' @ drop (length ds - 3) ds)"
  by pat_completeness auto
termination
  by (relation "measure length") auto

declare digits.simps [simp del]

declare group3.simps [simp del]

text \<open>
  \<^verbatim>\<open>toLocaleString('pt-BR', {minimumFractionDigits: 1, maximumFractionDigits: 1})\<close> on a
  number: one fraction digit, rounded half away from zero, a decimal comma, groups of
  three separated by a full stop, and a minus sign for a negative number.
\<close>

definition ptBR1 :: "real \<Rightarrow> string" where
  "ptBR1 x =
     (let t = nat \<lfloor>\<bar>x\<bar> * 10 + 1 / 2\<rfloor>
      in (if x < 0 then ''-'' else []) @ group3 (digits (t div 10)) @ '','' @ [digit_char (t mod 10)])"

text \<open>
  \<open>formatPercent\<close> calls the method on its argument: on \<^verbatim>\<open>undefined\<close> the call raises a
  TypeError, on a string it returns the string.
\<close>

fun formatPercent :: "jsval \<Rightarrow> error + string" where
  "formatPercent Undefined = Inl TypeError"
| "formatPercent (Num x) = Inr (ptBR1 x)"
| "formatPercent (Str s) = Inr s"

section \<open>Gauge arc calculator\<close>

text \<open>
  The constants of \<open>calculateGaugeArc\<close> that the template of its last line prints, computed
  with the platform's arithmetic in the order of the source.
\<close>

record arc_path =
  startX :: real
  startY :: real
  radius :: nat
  largeArcFlag :: nat
  endX :: real
  endY :: real

definition gauge_values :: "platform \<Rightarrow> real \<Rightarrow> arc_path" where
  "gauge_values pf percentage =
     (let startAngle = math_pi pf;
          endAngle = sub pf startAngle (mul pf (dvd_num pf percentage 100) (math_pi pf));
          cx = 100; cy = 100; r = 80
      in \<lparr> startX = add pf cx (mul pf (real r) (math_cos pf startAngle)),
           startY = sub pf cy (mul pf (real r) (math_sin pf startAngle)),
           radius = r,
           largeArcFlag = (if percentage > 50 then 1 else 0),
           endX = add pf cx (mul pf (real r) (math_cos pf endAngle)),
           endY = sub pf cy (mul pf (real r) (math_sin pf endAngle)) \<rparr>)"

text \<open>
  The template \<^verbatim>\<open>M ${startX} ${startY} A ${r} ${r} 0 ${largeArcFlag} 1 ${endX} ${endY}\<close>.
  The whole numbers \<open>r\<close> and \<open>largeArcFlag\<close> print as their decimal digits.
\<close>

definition pathString :: "(real \<Rightarrow> string) \<Rightarrow> arc_path \<Rightarrow> string" where
  "pathString f a =
     ''M '' @ f (startX a) @ '' '' @ f (startY a) @ '' A '' @ digits (radius a) @ '' ''
       @ digits (radius a) @ '' 0 '' @ digits (largeArcFlag a) @ '' 1 '' @ f (endX a) @ '' ''
       @ f (endY a)"

definition calculateGaugeArc :: "platform \<Rightarrow> real \<Rightarrow> string" where
  "calculateGaugeArc pf percentage = pathString (nts pf) (gauge_values pf percentage)"

text \<open>The fields of a string between the occurrences of a separator.\<close>

fun split_on :: "char \<Rightarrow> string \<Rightarrow> string list" where
  "split_on c [] = [[]]"
| "split_on c (x # xs) =
     (if x = c then [] # split_on c xs
      else (case split_on c xs of [] \<Rightarrow> [[x]] | w # ws \<Rightarrow> (x # w) # ws))"

section \<open>Page binders\<close>

text \<open>
  Assigning \<^verbatim>\<open>textContent\<close> replaces the children of the element by the text: the
  descendants of the element leave the tree.
\<close>

fun remove_children :: "nat \<Rightarrow> dom \<Rightarrow> dom" where
  "remove_children dep [] = []"
| "remove_children dep (e # es) =
     (if dep < depth e then e\<lparr>attached := False\<rparr> # remove_children dep es else e # es)"

definition setTextContent :: "nat \<Rightarrow> string \<Rightarrow> dom \<Rightarrow> dom" where
  "setTextContent k s d =
     take k d @ [(d ! k)\<lparr>textContent := s\<rparr>] @ remove_children (depth (d ! k)) (drop (Suc k) d)"

definition updateElement :: "(real \<Rightarrow> string) \<Rightarrow> string \<Rightarrow> jsval \<Rightarrow> dom \<Rightarrow> dom" where
  "updateElement f i v d =
     (case getElementById i d of
        None \<Rightarrow> d
      | Some k \<Rightarrow> setTextContent k (domString f v) d)"

text \<open>
  One bar or segment, for the element at hand:
  \<^verbatim>\<open>el.style.width = perc + '%'; el.textContent = value\<close>. The field \<open>style_width\<close> holds
  the string assigned last.
\<close>

definition writeBar :: "(real \<Rightarrow> string) \<Rightarrow> nat \<Rightarrow> jsval \<Rightarrow> jsval \<Rightarrow> dom \<Rightarrow> dom" where
  "writeBar f k perc v d =
     setTextContent k (domString f v) (d[k := (d ! k)\<lparr>style_width := toStr f perc @ ''%''\<rparr>])"

text \<open>
  A segment of \<open>updateProgressBar\<close>: the element is looked up, and written if it exists.
\<close>

definition setBar :: "(real \<Rightarrow> string) \<Rightarrow> string \<Rightarrow> jsval \<Rightarrow> jsval \<Rightarrow> dom \<Rightarrow> dom" where
  "setBar f i perc v d =
     (case getElementById i d of
        None \<Rightarrow> d
      | Some k \<Rightarrow> writeBar f k perc v d)"

text \<open>
  The bars of \<open>updateStatusBar\<close>: the four elements are looked up first and held in
  constants, then each one that exists is written, in the tree or not.
\<close>

fun writeBars :: "(real \<Rightarrow> string) \<Rightarrow> (nat option \<times> jsval \<times> jsval) list \<Rightarrow> dom \<Rightarrow> dom" where
  "writeBars f [] d = d"
| "writeBars f ((el, perc, v) # rest) d =
     writeBars f rest (case el of None \<Rightarrow> d | Some k \<Rightarrow> writeBar f k perc v d)"

definition setBars :: "(real \<Rightarrow> string) \<Rightarrow> (string \<times> jsval \<times> jsval) list \<Rightarrow> dom \<Rightarrow> dom" where
  "setBars f bars d = writeBars f (map (\<lambda>(i, perc, v). (getElementById i d, perc, v)) bars) d"

definition setAttribute :: "nat \<Rightarrow> string \<Rightarrow> string \<Rightarrow> dom \<Rightarrow> dom" where
  "setAttribute k a v d = d[k := (d ! k)\<lparr>attrs := (attrs (d ! k))(a \<mapsto> v)\<rparr>]"

definition removeAttribute :: "nat \<Rightarrow> string \<Rightarrow> dom \<Rightarrow> dom" where
  "removeAttribute k a d = d[k := (d ! k)\<lparr>attrs := (attrs (d ! k))(a := None)\<rparr>]"

text \<open>
  The gauge: \<^verbatim>\<open>gaugeArc.setAttribute('d', calculateGaugeArc(stats.efetividade))\<close>. The
  statement is reached only when \<^verbatim>\<open>formatPercent(stats.efetividade)\<close> has returned, so
  the field is a number there.
\<close>

definition setGauge :: "platform \<Rightarrow> real option \<Rightarrow> dom \<Rightarrow> dom" where
  "setGauge pf e d =
     (case getElementById ''gauge-arc'' d of
        None \<Rightarrow> d
      | Some k \<Rightarrow>
          (case e of
             None \<Rightarrow> d
           | Some x \<Rightarrow> setAttribute k ''d'' (calculateGaugeArc pf x) d))"

text \<open>
  The statements a binder consists of, each with the ids of the elements it writes:
  \<^item> \<open>Plain i v\<close> is \<^verbatim>\<open>updateElement(i, v)\<close> for a value \<open>v\<close> at hand (a field, a template
    literal, a concatenation);
  \<^item> \<open>Percent i v wrap\<close> is \<^verbatim>\<open>updateElement(i, ... formatPercent(v) ...)\<close>: the call of
    \<open>formatPercent\<close> comes first and may raise, \<open>wrap\<close> is the text around its result;
  \<^item> \<open>Bar i perc v\<close> is one segment of the progress bar;
  \<^item> \<open>Bars bars\<close> is the four bars of the status bar;
  \<^item> \<open>Gauge e\<close> is the gauge statement.
  A statement that raises stops the binder; what was written before stays written.
\<close>

datatype statement =
    Plain string jsval
  | Percent string jsval "string \<Rightarrow> string"
  | Bar string jsval jsval
  | Bars "(string \<times> jsval \<times> jsval) list"
  | Gauge "real option"

fun targets :: "statement \<Rightarrow> string list" where
  "targets (Plain i v) = [i]"
| "targets (Percent i v wrap) = [i]"
| "targets (Bar i perc v) = [i]"
| "targets (Bars bars) = map fst bars"
| "targets (Gauge e) = [''gauge-arc'']"

datatype completion = Normal | Throw error

fun exec :: "platform \<Rightarrow> statement \<Rightarrow> dom \<Rightarrow> completion \<times> dom" where
  "exec pf (Plain i v) d = (Normal, updateElement (nts pf) i v d)"
| "exec pf (Percent i v wrap) d =
     (case formatPercent v of
        Inl e \<Rightarrow> (Throw e, d)
      | Inr p \<Rightarrow> (Normal, updateElement (nts pf) i (Str (wrap p)) d))"
| "exec pf (Bar i perc v) d = (Normal, setBar (nts pf) i perc v d)"
| "exec pf (Bars bars) d = (Normal, setBars (nts pf) bars d)"
| "exec pf (Gauge e) d = (Normal, setGauge pf e d)"

fun run :: "platform \<Rightarrow> statement list \<Rightarrow> dom \<Rightarrow> completion \<times> dom" where
  "run pf [] d = (Normal, d)"
| "run pf (w # ws) d =
     (case exec pf w d of (Normal, d') \<Rightarrow> run pf ws d' | (Throw e, d') \<Rightarrow> (Throw e, d'))"

definition updateStatusBar :: "stats \<Rightarrow> statement list" where
  "updateStatusBar st =
     [Bars [(''bar-atendidas'', num (perc_atendidas st), num (atendidas st)),
            (''bar-baixadas'', num (perc_baixadas st), num (baixadas st)),
            (''bar-implementacao'', num (perc_em_implementacao st), num (em_implementacao st)),
            (''bar-pendentes'', num (perc_pendentes st), num (pendentes st))],
      Percent ''legend-atendidas'' (num (perc_atendidas st)) (\<lambda>p. ''Atendidas ('' @ p @ ''%)''),
      Percent ''legend-baixadas'' (num (perc_baixadas st)) (\<lambda>p. ''Baixadas ('' @ p @ ''%)''),
      Percent ''legend-implementacao'' (num (perc_em_implementacao st))
        (\<lambda>p. ''Em Implementa'' @ [CHR 0xE7, CHR 0xE3] @ ''o ('' @ p @ ''%)''),
      Percent ''legend-pendentes'' (num (perc_pendentes st)) (\<lambda>p. ''Pendentes ('' @ p @ ''%)'')]"

definition updateProgressBar :: "stats \<Rightarrow> statement list" where
  "updateProgressBar st =
     [Bar ''progress-atendidas'' (num (perc_atendidas st)) (num (atendidas st)),
      Bar ''progress-baixadas'' (num (perc_baixadas st)) (num (baixadas st)),
      Bar ''progress-implementacao'' (num (perc_em_implementacao st)) (num (em_implementacao st)),
      Bar ''progress-pendentes'' (num (perc_pendentes st)) (num (pendentes st))]"

definition dashboardSteps :: "stats \<Rightarrow> statement list" where
  "dashboardSteps st =
     [Plain ''card-relatorios'' (num (total_relatorios st)),
      Plain ''card-recomendacoes'' (num (total_recomendacoes st)),
      Plain ''card-beneficios'' (num (beneficios st)),
      Plain ''card-unidades'' (num (total_unidades st))]
     @ updateStatusBar st
     @ [Percent ''efetividade-valor'' (num (efetividade st)) (\<lambda>p. p @ ''%''),
        Plain ''efetividade-atendidas-baixadas'' (num (beneficios st)),
        Plain ''efetividade-total'' (num (total_recomendacoes st)),
        Gauge (efetividade st),
        Plain ''stat-anos'' (num (anos_atuacao st)),
        Plain ''stat-relatorios'' (num (total_relatorios st)),
        Plain ''stat-unidades'' (num (total_unidades st)),
        Plain ''data-atualizacao'' (str (data_atualizacao st))]"

definition monitoramentoSteps :: "stats \<Rightarrow> statement list" where
  "monitoramentoSteps st =
     [Plain ''monitor-atendidas'' (num (atendidas st)),
      Percent ''monitor-atendidas-perc'' (num (perc_atendidas st)) (\<lambda>p. p @ ''%''),
      Plain ''monitor-baixadas'' (num (baixadas st)),
      Percent ''monitor-baixadas-perc'' (num (perc_baixadas st)) (\<lambda>p. p @ ''%''),
      Plain ''monitor-implementacao'' (num (em_implementacao st)),
      Percent ''monitor-implementacao-perc'' (num (perc_em_implementacao st)) (\<lambda>p. p @ ''%''),
      Plain ''monitor-pendentes'' (num (pendentes st)),
      Percent ''monitor-pendentes-perc'' (num (perc_pendentes st)) (\<lambda>p. p @ ''%''),
      Percent ''monitor-resolvidas-perc'' (num (efetividade st)) (\<lambda>p. p @ ''% Resolvidas'')]
     @ updateProgressBar st"

text \<open>
  The loops over a top-N list: \<^verbatim>\<open>forEach((item, index) => ...)\<close>, the element ids built
  from \<^verbatim>\<open>index + 1\<close>.
\<close>

fun topBeneficios :: "item list \<Rightarrow> nat \<Rightarrow> statement list" where
  "topBeneficios [] index = []"
| "topBeneficios (it # its) index =
     [Plain (''top-beneficio-'' @ digits (index + 1) @ ''-nome'') (str (unidade it)),
      Plain (''top-beneficio-'' @ digits (index + 1) @ ''-total'') (num (total it))]
     @ topBeneficios its (index + 1)"

fun topRec :: "item list \<Rightarrow> nat \<Rightarrow> statement list" where
  "topRec [] index = []"
| "topRec (it # its) index =
     [Plain (''top-rec-'' @ digits (index + 1) @ ''-nome'') (str (unidade it)),
      Plain (''top-rec-'' @ digits (index + 1) @ ''-total'') (num (total it)),
      Percent (''top-rec-'' @ digits (index + 1) @ ''-perc'') (num (percentual it))
        (\<lambda>p. p @ ''% do total'')]
     @ topRec its (index + 1)"

fun reportTop :: "item list \<Rightarrow> nat \<Rightarrow> statement list" where
  "reportTop [] index = []"
| "reportTop (it # its) index =
     [Plain (''report-top-'' @ digits (index + 1) @ ''-nome'') (str (unidade it)),
      Plain (''report-top-'' @ digits (index + 1) @ ''-total'') (num (total it))]
     @ reportTop its (index + 1)"

definition beneficiosSteps :: "stats \<Rightarrow> statement list" where
  "beneficiosSteps st =
     [Plain ''beneficios-total'' (num (beneficios st)),
      Plain ''beneficios-unidades'' (num (unidades_com_beneficios st)),
      Percent ''beneficios-media'' (num (media_beneficios_unidade st)) (\<lambda>p. p)]
     @ (case top_unidades_beneficios st of
          None \<Rightarrow> []
        | Some its \<Rightarrow> topBeneficios its 0)"

definition raioXSteps :: "(real \<Rightarrow> string) \<Rightarrow> stats \<Rightarrow> statement list" where
  "raioXSteps f st =
     [Plain ''raiox-unidades'' (num (total_unidades st)),
      Plain ''raiox-anos'' (num (anos_atuacao st)),
      Plain ''raiox-periodo''
        (Str (toStr f (num (ano_inicio st)) @ '' - '' @ toStr f (num (ano_fim st)))),
      Percent ''raiox-media'' (num (media_rec_ano st)) (\<lambda>p. p),
      Plain ''raiox-ano-pico'' (num (ano_pico st)),
      Plain ''raiox-rec-pico''
        (Str (toStr f (num (rec_ano_pico st)) @ '' recomenda'' @ [CHR 0xE7, CHR 0xF5] @ ''es''))]
     @ (case top_unidades_recomendacoes st of
          None \<Rightarrow> []
        | Some its \<Rightarrow> topRec (take 3 its) 0)"

definition relatoriosSteps :: "stats \<Rightarrow> statement list" where
  "relatoriosSteps st =
     (case top_unidades_recomendacoes st of
        None \<Rightarrow> []
      | Some its \<Rightarrow> reportTop (take 5 its) 0)"

datatype page_binder = Dashboard | Monitoramento | Beneficios | RaioX | Relatorios

text \<open>The statements of each binder, after its first two lines.\<close>

fun body :: "page_binder \<Rightarrow> platform \<Rightarrow> stats \<Rightarrow> statement list" where
  "body Dashboard pf st = dashboardSteps st"
| "body Monitoramento pf st = monitoramentoSteps st"
| "body Beneficios pf st = beneficiosSteps st"
| "body RaioX pf st = raioXSteps (nts pf) st"
| "body Relatorios pf st = relatoriosSteps st"

text \<open>
  Every binder starts the same way: \<^verbatim>\<open>const stats = await loadStats(); if (!stats) return;\<close>
  and then runs its statements on the document.
\<close>

definition bind_stats ::
  "page_binder \<Rightarrow> platform \<Rightarrow> (nat \<Rightarrow> fetch_outcome) \<Rightarrow> page \<Rightarrow> completion \<times> page" where
  "bind_stats b pf net s =
     (let (stats, s1) = loadStats net s
      in if \<not> truthy stats then (Normal, s1)
         else let (c, d) = run pf (body b pf (fieldsOf stats)) (document s1)
              in (c, s1\<lparr>document := d\<rparr>))"

definition updateDashboard ::
  "platform \<Rightarrow> (nat \<Rightarrow> fetch_outcome) \<Rightarrow> page \<Rightarrow> completion \<times> page" where
  "updateDashboard = bind_stats Dashboard"

definition updateMonitoramento ::
  "platform \<Rightarrow> (nat \<Rightarrow> fetch_outcome) \<Rightarrow> page \<Rightarrow> completion \<times> page" where
  "updateMonitoramento = bind_stats Monitoramento"

definition updateBeneficios ::
  "platform \<Rightarrow> (nat \<Rightarrow> fetch_outcome) \<Rightarrow> page \<Rightarrow> completion \<times> page" where
  "updateBeneficios = bind_stats Beneficios"

definition updateRaioX ::
  "platform \<Rightarrow> (nat \<Rightarrow> fetch_outcome) \<Rightarrow> page \<Rightarrow> completion \<times> page" where
  "updateRaioX = bind_stats RaioX"

definition updateRelatorios ::
  "platform \<Rightarrow> (nat \<Rightarrow> fetch_outcome) \<Rightarrow> page \<Rightarrow> completion \<times> page" where
  "updateRelatorios = bind_stats Relatorios"

fun invoke ::
  "page_binder \<Rightarrow> platform \<Rightarrow> (nat \<Rightarrow> fetch_outcome) \<Rightarrow> page \<Rightarrow> completion \<times> page" where
  "invoke Dashboard = updateDashboard"
| "invoke Monitoramento = updateMonitoramento"
| "invoke Beneficios = updateBeneficios"
| "invoke RaioX = updateRaioX"
| "invoke Relatorios = updateRelatorios"

section \<open>Route dispatcher\<close>

text \<open>\<^verbatim>\<open>path.endsWith(x)\<close> is \<open>suffix x path\<close>, \<^verbatim>\<open>path.includes(x)\<close> is \<open>sublist x path\<close>.\<close>

definition root_subrule :: "string \<Rightarrow> bool" where
  "root_subrule path = (suffix ''/index.html'' path \<and> \<not> sublist ''/'' path)"

text \<open>The binder the \<^verbatim>\<open>if\<close>/\<^verbatim>\<open>else if\<close> chain of \<open>initDataLoader\<close> calls, if any.\<close>

definition route :: "string \<Rightarrow> page_binder option" where
  "route path =
     (if path = ''/'' \<or> path = ''/index.html'' \<or> root_subrule path then Some Dashboard
      else if sublist ''/monitor/'' path then Some Monitoramento
      else if sublist ''/beneficios/'' path then Some Beneficios
      else if sublist ''/raio-x/'' path then Some RaioX
      else if sublist ''/report/'' path then Some Relatorios
      else None)"

text \<open>The rules of the dispatcher as an ordered table: a test on the path and its binder.\<close>

definition dispatch_rules :: "((string \<Rightarrow> bool) \<times> page_binder) list" where
  "dispatch_rules =
     [(\<lambda>path. path = ''/'' \<or> path = ''/index.html'' \<or> root_subrule path, Dashboard),
      (sublist ''/monitor/'', Monitoramento),
      (sublist ''/beneficios/'', Beneficios),
      (sublist ''/raio-x/'', RaioX),
      (sublist ''/report/'', Relatorios)]"

definition initDataLoader ::
  "string \<Rightarrow> platform \<Rightarrow> (nat \<Rightarrow> fetch_outcome) \<Rightarrow> page \<Rightarrow> completion \<times> page" where
  "initDataLoader path pf net s =
     (case route path of None \<Rightarrow> (Normal, s) | Some b \<Rightarrow> invoke b pf net s)"

section \<open>Accordion\<close>

text \<open>
  \<open>toggleAccordionPanel\<close> on the trigger \<open>t\<close>, an element of the document. As in the
  source, an absent or empty \<^verbatim>\<open>aria-controls\<close> and a missing panel leave everything as
  it is.
\<close>

definition toggleAccordionPanel :: "nat \<Rightarrow> dom \<Rightarrow> dom" where
  "toggleAccordionPanel trigger d =
     (case attrs (d ! trigger) ''aria-controls'' of
        None \<Rightarrow> d
      | Some panelId \<Rightarrow>
          if panelId = [] then d
          else
            (case getElementById panelId d of
               None \<Rightarrow> d
             | Some panel \<Rightarrow>
                 let isExpanded = (attrs (d ! trigger) ''aria-expanded'' = Some ''true'');
                     d1 = setAttribute trigger ''aria-expanded''
                            (if isExpanded then ''false'' else ''true'') d
                 in if isExpanded then setAttribute panel ''hidden'' [] d1
                    else removeAttribute panel ''hidden'' d1))"

text \<open>
  \<open>initAccordions\<close> gives a click handler to every element of class
  \<^verbatim>\<open>audin-accordion__trigger\<close>; a click on one of them runs \<open>toggleAccordionPanel\<close>.
\<close>

definition initAccordions :: "dom \<Rightarrow> nat list" where
  "initAccordions d =
     filter (\<lambda>k. ''audin-accordion__trigger'' \<in> set (classList (d ! k))) [0..<length d]"

definition accordionClick :: "nat list \<Rightarrow> nat \<Rightarrow> dom \<Rightarrow> dom" where
  "accordionClick triggers t d = (if t \<in> set triggers then toggleAccordionPanel t d else d)"

section \<open>Report-list filter\<close>

text \<open>
  The elements \<open>initFiltros\<close> finds once and \<open>filtrar\<close> closes over: the two selects and
  the search input (each may be absent), the empty-list message (may be absent) and the
  list items. The platform's \<^verbatim>\<open>toLowerCase\<close> and \<^verbatim>\<open>trim\<close> are the parameters
  \<open>lower\<close> and \<open>trim\<close>.
\<close>

record filtros =
  periodoSelect :: "nat option"
  tipoSelect :: "nat option"
  buscaInput :: "nat option"
  vazioMsg :: "nat option"
  items :: "nat list"

definition classList_add :: "string \<Rightarrow> nat \<Rightarrow> dom \<Rightarrow> dom" where
  "classList_add c k d =
     d[k := (d ! k)\<lparr>classList :=
        (if c \<in> set (classList (d ! k)) then classList (d ! k) else classList (d ! k) @ [c])\<rparr>]"

definition classList_remove :: "string \<Rightarrow> nat \<Rightarrow> dom \<Rightarrow> dom" where
  "classList_remove c k d = d[k := (d ! k)\<lparr>classList := removeAll c (classList (d ! k))\<rparr>]"

text \<open>\<^verbatim>\<open>item.dataset.busca || ''\<close>: the attribute, or the empty string without it.\<close>

definition dataset_or_empty :: "string \<Rightarrow> element \<Rightarrow> string" where
  "dataset_or_empty a e = (case attrs e a of None \<Rightarrow> [] | Some s \<Rightarrow> s)"

definition item_matches ::
  "(string \<Rightarrow> string) \<Rightarrow> string \<Rightarrow> string \<Rightarrow> string \<Rightarrow> element \<Rightarrow> bool" where
  "item_matches lower periodo tipo busca e =
     (let matchPeriodo = (periodo = [] \<or> attrs e ''data-periodo'' = Some periodo);
          matchTipo = (tipo = [] \<or> attrs e ''data-tipo'' = Some tipo);
          matchBusca = (busca = [] \<or> sublist busca (lower (dataset_or_empty ''data-busca'' e)))
      in matchPeriodo \<and> matchTipo \<and> matchBusca)"

text \<open>The loop over the items, with the counter \<open>visiveis\<close>.\<close>

fun filtrar_items ::
  "(string \<Rightarrow> string) \<Rightarrow> string \<Rightarrow> string \<Rightarrow> string \<Rightarrow> nat list \<Rightarrow> dom \<times> nat \<Rightarrow> dom \<times> nat" where
  "filtrar_items lower periodo tipo busca [] (d, visiveis) = (d, visiveis)"
| "filtrar_items lower periodo tipo busca (i # is) (d, visiveis) =
     (if item_matches lower periodo tipo busca (d ! i)
      then filtrar_items lower periodo tipo busca is
             (classList_remove ''audin-hidden'' i d, visiveis + 1)
      else filtrar_items lower periodo tipo busca is
             (classList_add ''audin-hidden'' i d, visiveis))"

definition control_value :: "nat option \<Rightarrow> dom \<Rightarrow> string" where
  "control_value c d = (case c of None \<Rightarrow> [] | Some k \<Rightarrow> val (d ! k))"

definition filtrar :: "(string \<Rightarrow> string) \<Rightarrow> (string \<Rightarrow> string) \<Rightarrow> filtros \<Rightarrow> dom \<Rightarrow> dom" where
  "filtrar lower trim env d =
     (let periodo = control_value (periodoSelect env) d;
          tipo = control_value (tipoSelect env) d;
          busca = (case buscaInput env of None \<Rightarrow> [] | Some k \<Rightarrow> trim (lower (val (d ! k))));
          (d1, visiveis) = filtrar_items lower periodo tipo busca (items env) (d, 0)
      in case vazioMsg env of
           None \<Rightarrow> d1
         | Some v \<Rightarrow>
             if visiveis = 0 then classList_remove ''audin-hidden'' v d1
             else classList_add ''audin-hidden'' v d1)"

section \<open>Tabs\<close>

text \<open>
  \<open>initTabs\<close> keeps the tabs of the tab list and, for each, the panel that
  \<^verbatim>\<open>document.getElementById(tab.getAttribute('aria-controls'))\<close> returns (a tab without
  the attribute asks for the id \<^verbatim>\<open>null\<close>).
\<close>

record tabs_env =
  tabs :: "nat list"
  panels :: "nat option list"

definition initTabs :: "nat list \<Rightarrow> dom \<Rightarrow> tabs_env" where
  "initTabs ts d =
     \<lparr> tabs = ts,
       panels = map (\<lambda>t. getElementById
                  (case attrs (d ! t) ''aria-controls'' of None \<Rightarrow> ''null'' | Some i \<Rightarrow> i) d) ts \<rparr>"

definition mark_tab :: "nat \<Rightarrow> bool \<Rightarrow> dom \<Rightarrow> dom" where
  "mark_tab t sel d =
     setAttribute t ''tabindex'' (if sel then ''0'' else ''-1'')
       ((if sel then classList_add ''audin-dash__tab--active'' t
         else classList_remove ''audin-dash__tab--active'' t)
          (setAttribute t ''aria-selected'' (if sel then ''true'' else ''false'') d))"

text \<open>\<^verbatim>\<open>p.hidden = b\<close> sets or removes the \<^verbatim>\<open>hidden\<close> attribute.\<close>

definition set_hidden :: "nat \<Rightarrow> bool \<Rightarrow> dom \<Rightarrow> dom" where
  "set_hidden p b d = (if b then setAttribute p ''hidden'' [] d else removeAttribute p ''hidden'' d)"

fun mark_tabs :: "nat list \<Rightarrow> nat \<Rightarrow> nat \<Rightarrow> dom \<Rightarrow> dom" where
  "mark_tabs [] i index d = d"
| "mark_tabs (t # ts) i index d = mark_tabs ts (i + 1) index (mark_tab t (i = index) d)"

fun mark_panels :: "nat option list \<Rightarrow> nat \<Rightarrow> nat \<Rightarrow> dom \<Rightarrow> dom" where
  "mark_panels [] i index d = d"
| "mark_panels (p # ps) i index d =
     mark_panels ps (i + 1) index
       (case p of None \<Rightarrow> d | Some k \<Rightarrow> set_hidden k (i \<noteq> index) d)"

definition activateTab :: "tabs_env \<Rightarrow> nat \<Rightarrow> dom \<Rightarrow> dom" where
  "activateTab env index d = mark_panels (panels env) 0 index (mark_tabs (tabs env) 0 index d)"

text \<open>
  The key handler of the tab at \<open>index\<close> (so \<open>index < length (tabs env)\<close>): the new
  document and the element that receives the focus, if the key is one of the four.
\<close>

definition tabKeydown :: "tabs_env \<Rightarrow> nat \<Rightarrow> string \<Rightarrow> dom \<Rightarrow> dom \<times> nat option" where
  "tabKeydown env index key d =
     (let n = length (tabs env);
          target =
            (if key = ''ArrowRight'' then Some ((index + 1) mod n)
             else if key = ''ArrowLeft'' then Some ((index + n - 1) mod n)
             else if key = ''Home'' then Some 0
             else if key = ''End'' then Some (n - 1)
             else None)
      in case target of
           None \<Rightarrow> (d, None)
         | Some targetIndex \<Rightarrow> (activateTab env targetIndex d, Some (tabs env ! targetIndex)))"

section \<open>Observations on the document\<close>

text \<open>
  What the properties below speak about: for each element whether it is in the tree and
  its id, the panel a trigger controls, whether a trigger is expanded, whether an element
  is hidden, whether it is shown (lacks the class \<^verbatim>\<open>audin-hidden\<close>).
\<close>

definition ids :: "dom \<Rightarrow> (bool \<times> string option) list" where
  "ids d = map (\<lambda>e. (attached e, attrs e ''id'')) d"

definition panelOf :: "nat \<Rightarrow> dom \<Rightarrow> nat option" where
  "panelOf t d =
     (case attrs (d ! t) ''aria-controls'' of None \<Rightarrow> None | Some i \<Rightarrow> getElementById i d)"

definition expanded :: "nat \<Rightarrow> dom \<Rightarrow> bool" where
  "expanded t d = (attrs (d ! t) ''aria-expanded'' = Some ''true'')"

definition is_hidden :: "nat \<Rightarrow> dom \<Rightarrow> bool" where
  "is_hidden p d = (attrs (d ! p) ''hidden'' \<noteq> None)"

definition shown :: "nat \<Rightarrow> dom \<Rightarrow> bool" where
  "shown k d = (''audin-hidden'' \<notin> set (classList (d ! k)))"

text \<open>The panels that exist, in the order of their tabs.\<close>

fun existing :: "nat option list \<Rightarrow> nat list" where
  "existing [] = []"
| "existing (None # ps) = existing ps"
| "existing (Some p # ps) = p # existing ps"

text \<open>
  The criteria of the report-list filter as the claim words them: the item's
  \<^verbatim>\<open>data-periodo\<close> equals the selected period or the period is empty, its \<^verbatim>\<open>data-tipo\<close>
  equals the selected type or the type is empty, and its \<^verbatim>\<open>data-busca\<close>, in lower case,
  contains the search text or the search text is empty. The search text is the input's
  value in lower case and trimmed.
\<close>

definition meets_criteria ::
  "(string \<Rightarrow> string) \<Rightarrow> string \<Rightarrow> string \<Rightarrow> string \<Rightarrow> element \<Rightarrow> bool" where
  "meets_criteria lower periodo tipo busca e =
     ((attrs e ''data-periodo'' = Some periodo \<or> periodo = [])
      \<and> (attrs e ''data-tipo'' = Some tipo \<or> tipo = [])
      \<and> (sublist busca (lower (case attrs e ''data-busca'' of None \<Rightarrow> [] | Some s \<Rightarrow> s))
           \<or> busca = []))"

definition search_text :: "(string \<Rightarrow> string) \<Rightarrow> (string \<Rightarrow> string) \<Rightarrow> filtros \<Rightarrow> dom \<Rightarrow> string" where
  "search_text lower trim env d =
     (case buscaInput env of None \<Rightarrow> [] | Some k \<Rightarrow> trim (lower (val (d ! k))))"

text \<open>All of the elements of a document but whether they are in the tree.\<close>

definition content :: "dom \<Rightarrow> element list" where
  "content d = map (\<lambda>e. e\<lparr>attached := True\<rparr>) d"

text \<open>
  The \<^verbatim>\<open>id\<close> attributes of a document; elements held under the ids \<open>T\<close>, each with its
  id; the ids that a list of statements writes; the ids that a loop builds from an index
  greater than \<open>n\<close>; and two documents that differ at most in elements whose \<^verbatim>\<open>id\<close> is one
  of \<open>T\<close>, and in what is in the tree.
\<close>

definition idattrs :: "dom \<Rightarrow> string option list" where
  "idattrs d = map (\<lambda>e. attrs e ''id'') d"

definition held :: "string set \<Rightarrow> (string \<Rightarrow> nat option) \<Rightarrow> dom \<Rightarrow> bool" where
  "held T r d = (\<forall>j k. r j = Some k \<longrightarrow> j \<in> T \<longrightarrow> k < length d \<and> attrs (d ! k) ''id'' = Some j)"

definition written :: "statement list \<Rightarrow> string list" where
  "written ws = concat (map targets ws)"


definition same_but :: "string set \<Rightarrow> dom \<Rightarrow> dom \<Rightarrow> bool" where
  "same_but T d d' =
     (length d' = length d \<and> idattrs d' = idattrs d
      \<and> (\<forall>m < length d. attrs (d ! m) ''id'' \<notin> Some ` T \<longrightarrow> content d' ! m = content d ! m))"

section \<open>Two platforms\<close>

text \<open>
  Exact arithmetic: the constant is \<open>\<pi>\<close>, the functions are cosine and sine, and no result
  is rounded. Its Number-to-String is right on whole non-negative numbers.
\<close>

definition nts_whole :: "real \<Rightarrow> string" where
  "nts_whole x = digits (nat \<lfloor>x\<rfloor>)"

definition exact_platform :: platform where
  "exact_platform =
     \<lparr>nts = nts_whole, math_pi = pi, math_cos = cos, math_sin = sin, rnd = (\<lambda>x. x)\<rparr>"

text \<open>
  IEEE 754 double precision: a result is rounded to 53 significant bits (the range of the
  exponent is not modelled; a tie is rounded up). \<^verbatim>\<open>Math.PI\<close> is the double nearest to
  \<open>\<pi>\<close>, 3.141592653589793, and at that argument \<^verbatim>\<open>Math.cos\<close> returns -1 and \<^verbatim>\<open>Math.sin\<close>
  returns the double 1.2246467991473532e-16, as a correctly rounded library does;
  elsewhere the two functions are taken as correctly rounded.
\<close>

definition round53 :: "real \<Rightarrow> real" where
  "round53 x =
     (if x = 0 then 0
      else let u = 2 powr (of_int \<lfloor>log 2 \<bar>x\<bar>\<rfloor> - 52) in of_int (round (x / u)) * u)"

definition ieee_pi :: real where
  "ieee_pi = 884279719003555 / 2 ^ 48"

definition ieee_sin_pi :: real where
  "ieee_sin_pi = 4967757600021511 / 2 ^ 105"

definition ieee_platform :: platform where
  "ieee_platform =
     \<lparr>nts = nts_whole, math_pi = ieee_pi,
      math_cos = (\<lambda>x. if x = ieee_pi then - 1 else round53 (cos x)),
      math_sin = (\<lambda>x. if x = ieee_pi then ieee_sin_pi else round53 (sin x)),
      rnd = round53\<rparr>"

section \<open>Sample data\<close>

text \<open>Concrete documents and pages for the examples.\<close>

definition card_el :: "string \<Rightarrow> string \<Rightarrow> element" where
  "card_el i txt = \<lparr>attrs = [''id'' \<mapsto> i], classList = [], textContent = txt, style_width = [],
     val = [], depth = 0, attached = True\<rparr>"

definition node :: "(string \<times> string) list \<Rightarrow> string list \<Rightarrow> element" where
  "node as cs = \<lparr>attrs = map_of as, classList = cs, textContent = [], style_width = [], val = [],
     depth = 0, attached = True\<rparr>"

text \<open>
  An accordion of one trigger and its panel, collapsed; the same with the panel left
  visible in the markup; and two triggers that control one panel.
\<close>

definition accordion_doc :: dom where
  "accordion_doc =
     [node [(''aria-controls'', ''p1''), (''aria-expanded'', ''false'')] [''audin-accordion__trigger''],
      node [(''id'', ''p1''), (''hidden'', [])] []]"

definition loose_accordion_doc :: dom where
  "loose_accordion_doc =
     [node [(''aria-controls'', ''p1''), (''aria-expanded'', ''false'')] [''audin-accordion__trigger''],
      node [(''id'', ''p1'')] []]"

definition shared_panel_doc :: dom where
  "shared_panel_doc =
     [node [(''aria-controls'', ''p1''), (''aria-expanded'', ''false'')] [''audin-accordion__trigger''],
      node [(''aria-controls'', ''p1''), (''aria-expanded'', ''false'')] [''audin-accordion__trigger''],
      node [(''id'', ''p1''), (''hidden'', [])] []]"

text \<open>Two tabs and their two panels.\<close>

definition tabs_doc :: dom where
  "tabs_doc =
     [node [(''role'', ''tab''), (''aria-controls'', ''t1'')] [],
      node [(''role'', ''tab''), (''aria-controls'', ''t2'')] [],
      node [(''id'', ''t1'')] [],
      node [(''id'', ''t2''), (''hidden'', [])] []]"

text \<open>
  A report list: the period select set to 2024, an empty search input, two items and the
  empty-list message.
\<close>

definition report_doc :: dom where
  "report_doc =
     [(node [(''id'', ''filtro-periodo'')] [])\<lparr>val := ''2024''\<rparr>,
      node [(''id'', ''busca-relatorio'')] [],
      node [(''data-periodo'', ''2024''), (''data-tipo'', ''auditoria'')] [''audin-relatorio-item''],
      node [(''data-periodo'', ''2023''), (''data-tipo'', ''auditoria'')] [''audin-relatorio-item''],
      node [] [''audin-relatorios-lista__vazio'']]"

definition report_env :: filtros where
  "report_env = \<lparr>periodoSelect = Some 0, tipoSelect = None, buscaInput = Some 1,
     vazioMsg = Some 4, items = [2, 3]\<rparr>"

text \<open>Two triggers, each with its own panel.\<close>

definition two_accordions_doc :: dom where
  "two_accordions_doc =
     [node [(''aria-controls'', ''p1''), (''aria-expanded'', ''false'')] [''audin-accordion__trigger''],
      node [(''aria-controls'', ''p2''), (''aria-expanded'', ''false'')] [''audin-accordion__trigger''],
      node [(''id'', ''p1''), (''hidden'', [])] [],
      node [(''id'', ''p2''), (''hidden'', [])] []]"



definition fresh_page :: "dom \<Rightarrow> page" where
  "fresh_page d = \<lparr>statsData = JNull, requests = [], console = [], document = d\<rparr>"




section \<open>Properties of the stats fetcher\<close>

lemma loadStats_hit: "truthy (statsData s) \<Longrightarrow> loadStats net s = (statsData s, s)"
  by (simp add: loadStats_def)

lemma loadStats_result_cached:
  "truthy (fst (loadStats net s)) \<Longrightarrow> statsData (snd (loadStats net s)) = fst (loadStats net s)"
  by (auto simp: loadStats_def Let_def split: fetch_outcome.splits)

text \<open>
  C1. If a first call of \<open>loadStats\<close> succeeds, that is, returns a truthy document (which
  every caller tests with \<^verbatim>\<open>if (!stats) return\<close>; every JSON object is truthy), the
  document is cached, and a second call, whatever the network would answer, returns the
  same document and leaves the page as it is: no further request is issued.
\<close>

theorem loadStats_second_call_cached:
  assumes "truthy (fst (loadStats net s))"
  shows "statsData (snd (loadStats net s)) = fst (loadStats net s)
    \<and> loadStats net' (snd (loadStats net s)) = (fst (loadStats net s), snd (loadStats net s))
    \<and> requests (snd (loadStats net' (snd (loadStats net s)))) = requests (snd (loadStats net s))"
proof -
  have c: "statsData (snd (loadStats net s)) = fst (loadStats net s)"
    using assms by (rule loadStats_result_cached)
  then have "truthy (statsData (snd (loadStats net s)))"
    using assms by simp
  then have "loadStats net' (snd (loadStats net s))
      = (statsData (snd (loadStats net s)), snd (loadStats net s))"
    by (rule loadStats_hit)
  with c show ?thesis by simp
qed

theorem loadStats_second_call_cached_witness:
  "truthy (fst (loadStats (\<lambda>n. Parsed (JObj no_fields))
      \<lparr>statsData = JNull, requests = [], console = [], document = []\<rparr>))
   \<and> loadStats (\<lambda>n. Failed FetchRejected)
       (snd (loadStats (\<lambda>n. Parsed (JObj no_fields))
         \<lparr>statsData = JNull, requests = [], console = [], document = []\<rparr>))
     = (JObj no_fields,
        \<lparr>statsData = JObj no_fields, requests = [''/data/stats.json''], console = [],
         document = []\<rparr>)"
  using loadStats_second_call_cached [of "\<lambda>n. Parsed (JObj no_fields)"
      "\<lparr>statsData = JNull, requests = [], console = [], document = []\<rparr>"
      "\<lambda>n. Failed FetchRejected"]
  by (simp add: loadStats_def)

text \<open>
  C9. A failed call is not cached. If the cache holds nothing truthy and the request
  fails (the fetch or the parse), \<open>loadStats\<close> logs the failure, returns \<^verbatim>\<open>null\<close> and
  leaves \<open>statsData\<close> as it was (null stays null), so the next call issues a request
  again. The cache changes only when the request succeeded, and then to the parsed
  document.
\<close>

theorem loadStats_failure_not_cached:
  "(\<not> truthy (statsData s) \<and> net (length (requests s)) = Failed e \<longrightarrow>
      loadStats net s = (JNull, s\<lparr>requests := requests s @ [''/data/stats.json''],
                                  console := console s @ [(''Erro ao carregar stats.json:'', e)]\<rparr>)
      \<and> statsData (snd (loadStats net s)) = statsData s
      \<and> requests (snd (loadStats net' (snd (loadStats net s))))
          = requests s @ [''/data/stats.json'', ''/data/stats.json''])
   \<and> (statsData (snd (loadStats net s)) \<noteq> statsData s \<longrightarrow>
        (\<exists>d. net (length (requests s)) = Parsed d \<and> statsData (snd (loadStats net s)) = d))"
  by (auto simp: loadStats_def Let_def split: fetch_outcome.splits)

theorem loadStats_failure_not_cached_witness:
  "\<not> truthy (statsData (fresh_page []))
   \<and> statsData (snd (loadStats (\<lambda>n. Failed JsonRejected) (fresh_page []))) = JNull
   \<and> requests (snd (loadStats (\<lambda>n. Parsed JArr)
        (snd (loadStats (\<lambda>n. Failed JsonRejected) (fresh_page [])))))
       = [''/data/stats.json'', ''/data/stats.json'']
   \<and> statsData (snd (loadStats (\<lambda>n. Parsed JArr) (fresh_page []))) \<noteq> statsData (fresh_page [])
   \<and> statsData (snd (loadStats (\<lambda>n. Parsed JArr) (fresh_page []))) = JArr"
  using loadStats_failure_not_cached [of "fresh_page []" "\<lambda>n. Failed JsonRejected" JsonRejected
      "\<lambda>n. Parsed JArr"]
    loadStats_failure_not_cached [of "fresh_page []" "\<lambda>n. Parsed JArr" JsonRejected
      "\<lambda>n. Parsed JArr"]
  by (simp add: fresh_page_def loadStats_def)

section \<open>Failure leaves the page unpopulated\<close>

lemma bind_stats_failed:
  assumes "\<not> truthy (statsData s)" and "net (length (requests s)) = Failed e"
  shows "bind_stats b pf net s = (Normal, snd (loadStats net s))"
  using assms by (simp add: bind_stats_def loadStats_def Let_def)

text \<open>
  C4. When the cache is empty and the request fails (retrieval or parse), \<open>loadStats\<close>
  appends the failure to the console and returns \<^verbatim>\<open>null\<close>; each of the five binders then
  returns normally, and the page it leaves is the one \<open>loadStats\<close> left: the document is
  the one it started with.
\<close>

theorem failure_logged_and_nothing_written:
  assumes "\<not> truthy (statsData s)" and "net (length (requests s)) = Failed e"
  shows "fst (loadStats net s) = JNull
     \<and> console (snd (loadStats net s)) = console s @ [(''Erro ao carregar stats.json:'', e)]
     \<and> fst (invoke b pf net s) = Normal
     \<and> snd (invoke b pf net s) = snd (loadStats net s)
     \<and> document (snd (invoke b pf net s)) = document s"
  using assms
  by (cases b)
    (simp_all add: updateDashboard_def updateMonitoramento_def updateBeneficios_def
      updateRaioX_def updateRelatorios_def bind_stats_failed,
     simp_all add: loadStats_def Let_def)

theorem failure_logged_and_nothing_written_witness:
  "\<not> truthy (statsData (fresh_page [card_el ''card-relatorios'' ''0'']))
   \<and> fst (loadStats (\<lambda>n. Failed FetchRejected) (fresh_page [card_el ''card-relatorios'' ''0''])) = JNull
   \<and> console (snd (loadStats (\<lambda>n. Failed FetchRejected)
        (fresh_page [card_el ''card-relatorios'' ''0''])))
       = [(''Erro ao carregar stats.json:'', FetchRejected)]
   \<and> fst (updateDashboard exact_platform (\<lambda>n. Failed FetchRejected)
        (fresh_page [card_el ''card-relatorios'' ''0''])) = Normal
   \<and> document (snd (updateDashboard exact_platform (\<lambda>n. Failed FetchRejected)
        (fresh_page [card_el ''card-relatorios'' ''0'']))) = [card_el ''card-relatorios'' ''0'']"
  using failure_logged_and_nothing_written [of "fresh_page [card_el ''card-relatorios'' ''0'']"
      "\<lambda>n. Failed FetchRejected" FetchRejected Dashboard exact_platform]
  by (simp add: fresh_page_def loadStats_def)

section \<open>Route dispatch\<close>

lemma slash_in_index: "sublist ''/'' ''/index.html''"
  by (simp add: sublist_Cons_right)

lemma root_subrule_never: "\<not> root_subrule path"
proof -
  have "sublist ''/'' path" if "suffix ''/index.html'' path"
    using that slash_in_index suffix_imp_sublist sublist_order.order.trans by blast
  then show ?thesis
    by (auto simp: root_subrule_def)
qed

text \<open>
  C7. For every path the sub-rule \<^verbatim>\<open>path.endsWith('/index.html') && !path.includes('/')\<close>
  is false. The dispatcher calls the binder of the first rule of its ordered table that
  the path matches, and nothing when no rule matches: at most one binder. The dashboard is
  chosen exactly for \<^verbatim>\<open>/\<close> and \<^verbatim>\<open>/index.html\<close>.
\<close>

theorem route_first_matching_rule:
  "\<not> root_subrule path
   \<and> route path = map_option snd (find (\<lambda>r. fst r path) dispatch_rules)
   \<and> (route path = Some Dashboard) = (path = ''/'' \<or> path = ''/index.html'')
   \<and> initDataLoader path pf net s =
       (case find (\<lambda>r. fst r path) dispatch_rules of
          None \<Rightarrow> (Normal, s)
        | Some r \<Rightarrow> invoke (snd r) pf net s)"
proof -
  have r: "route path = map_option snd (find (\<lambda>r. fst r path) dispatch_rules)"
    by (simp add: route_def dispatch_rules_def)
  have d: "(route path = Some Dashboard) = (path = ''/'' \<or> path = ''/index.html'')"
    by (simp add: route_def root_subrule_never)
  have i: "initDataLoader path pf net s =
       (case find (\<lambda>r. fst r path) dispatch_rules of
          None \<Rightarrow> (Normal, s)
        | Some r \<Rightarrow> invoke (snd r) pf net s)"
    unfolding initDataLoader_def r by (simp split: option.split)
  from root_subrule_never r d i show ?thesis by blast
qed

theorem route_first_matching_rule_witness:
  "route ''/monitor/index.html'' = Some Monitoramento
   \<and> route ''/report/monitor/x'' = Some Monitoramento
   \<and> route ''/sobre/index.html'' = None
   \<and> initDataLoader ''/sobre/index.html'' exact_platform (\<lambda>n. Failed FetchRejected) (fresh_page [])
       = (Normal, fresh_page [])"
  using route_first_matching_rule [of "''/monitor/index.html''" exact_platform
      "\<lambda>n. Failed FetchRejected" "fresh_page []"]
    route_first_matching_rule [of "''/report/monitor/x''" exact_platform
      "\<lambda>n. Failed FetchRejected" "fresh_page []"]
    route_first_matching_rule [of "''/sobre/index.html''" exact_platform
      "\<lambda>n. Failed FetchRejected" "fresh_page []"]
  by (simp add: dispatch_rules_def root_subrule_never sublist_Cons_right)

section \<open>Elements and their attributes\<close>

lemma getElementById_empty: "getElementById [] d = None"
  by (induction d) auto

lemma getElementById_Some:
  "getElementById i d = Some k \<Longrightarrow>
     k < length d \<and> attrs (d ! k) ''id'' = Some i \<and> attached (d ! k) \<and> i \<noteq> []"
  by (induction d arbitrary: k) (auto split: if_splits)

lemma getElementById_ids: "ids d' = ids d \<Longrightarrow> getElementById i d' = getElementById i d"
proof (induction d arbitrary: d')
  case Nil
  then show ?case by (simp add: ids_def)
next
  case (Cons e es)
  then obtain e' es' where d': "d' = e' # es'"
    by (cases d') (auto simp: ids_def)
  with Cons.prems have "attrs e' ''id'' = attrs e ''id''" and "attached e' = attached e"
    and "ids es' = ids es"
    by (auto simp: ids_def)
  with Cons.IH [of es'] d' show ?case by (simp add: getElementById_empty)
qed

lemma ids_update:
  "attrs e ''id'' = attrs (d ! k) ''id'' \<Longrightarrow> attached e = attached (d ! k) \<Longrightarrow>
     ids (d[k := e]) = ids d"
proof -
  assume a: "attrs e ''id'' = attrs (d ! k) ''id''" "attached e = attached (d ! k)"
  show ?thesis
  proof (cases "k < length d")
    case True
    then show ?thesis
      using a by (simp add: ids_def map_update list_update_same_conv)
  next
    case False
    then show ?thesis by (simp add: list_update_beyond)
  qed
qed

lemma ids_setAttribute: "a \<noteq> ''id'' \<Longrightarrow> ids (setAttribute k a v d) = ids d"
  by (simp add: setAttribute_def ids_update)

lemma ids_removeAttribute: "a \<noteq> ''id'' \<Longrightarrow> ids (removeAttribute k a d) = ids d"
  by (simp add: removeAttribute_def ids_update)

lemma length_setAttribute: "length (setAttribute k a v d) = length d"
  by (simp add: setAttribute_def)

lemma length_removeAttribute: "length (removeAttribute k a d) = length d"
  by (simp add: removeAttribute_def)

lemma attrs_setAttribute:
  "k < length d \<Longrightarrow> attrs (setAttribute k a v d ! n) b
     = (if n = k \<and> b = a then Some v else attrs (d ! n) b)"
  by (simp add: setAttribute_def nth_list_update)

lemma attrs_setAttribute_other:
  "b \<noteq> a \<Longrightarrow> attrs (setAttribute k a v d ! n) b = attrs (d ! n) b"
  by (cases "k < length d") (simp_all add: setAttribute_def nth_list_update list_update_beyond)

lemma attrs_removeAttribute:
  "k < length d \<Longrightarrow> attrs (removeAttribute k a d ! n) b
     = (if n = k \<and> b = a then None else attrs (d ! n) b)"
  by (simp add: removeAttribute_def nth_list_update)

lemma attrs_removeAttribute_other:
  "b \<noteq> a \<Longrightarrow> attrs (removeAttribute k a d ! n) b = attrs (d ! n) b"
  by (cases "k < length d") (simp_all add: removeAttribute_def nth_list_update list_update_beyond)

section \<open>Class lists, tabs and panels\<close>

lemma length_classList_add: "length (classList_add c k d) = length d"
  by (simp add: classList_add_def)

lemma length_classList_remove: "length (classList_remove c k d) = length d"
  by (simp add: classList_remove_def)

lemma attrs_classList_add: "attrs (classList_add c k d ! n) = attrs (d ! n)"
  by (cases "k < length d") (simp_all add: classList_add_def nth_list_update list_update_beyond)

lemma attrs_classList_remove: "attrs (classList_remove c k d ! n) = attrs (d ! n)"
  by (cases "k < length d") (simp_all add: classList_remove_def nth_list_update list_update_beyond)

lemma val_classList_add: "val (classList_add c k d ! n) = val (d ! n)"
  by (cases "k < length d") (simp_all add: classList_add_def nth_list_update list_update_beyond)

lemma val_classList_remove: "val (classList_remove c k d ! n) = val (d ! n)"
  by (cases "k < length d") (simp_all add: classList_remove_def nth_list_update list_update_beyond)

lemma classList_add_other: "n \<noteq> k \<Longrightarrow> classList_add c k d ! n = d ! n"
  by (simp add: classList_add_def)

lemma classList_remove_other: "n \<noteq> k \<Longrightarrow> classList_remove c k d ! n = d ! n"
  by (simp add: classList_remove_def)

lemma shown_add: "k < length d \<Longrightarrow> \<not> shown k (classList_add ''audin-hidden'' k d)"
  by (simp add: shown_def classList_add_def)

lemma shown_remove: "k < length d \<Longrightarrow> shown k (classList_remove ''audin-hidden'' k d)"
  by (simp add: shown_def classList_remove_def)

lemma shown_add_other: "n \<noteq> k \<Longrightarrow> shown n (classList_add c k d) = shown n d"
  by (simp add: shown_def classList_add_other)

lemma shown_remove_other: "n \<noteq> k \<Longrightarrow> shown n (classList_remove c k d) = shown n d"
  by (simp add: shown_def classList_remove_other)

lemma length_set_hidden: "length (set_hidden p b d) = length d"
  by (simp add: set_hidden_def length_setAttribute length_removeAttribute)

lemma set_hidden_other: "n \<noteq> p \<Longrightarrow> set_hidden p b d ! n = d ! n"
  by (simp add: set_hidden_def setAttribute_def removeAttribute_def)

lemma attrs_set_hidden_other: "a \<noteq> ''hidden'' \<Longrightarrow> attrs (set_hidden p b d ! n) a = attrs (d ! n) a"
  by (simp add: set_hidden_def attrs_setAttribute_other attrs_removeAttribute_other)

lemma is_hidden_set_hidden: "p < length d \<Longrightarrow> is_hidden p (set_hidden p b d) = b"
  by (simp add: is_hidden_def set_hidden_def attrs_setAttribute attrs_removeAttribute)

lemma length_mark_tab: "length (mark_tab t sel d) = length d"
  by (simp add: mark_tab_def length_setAttribute length_classList_add length_classList_remove)

lemma mark_tab_other: "n \<noteq> t \<Longrightarrow> mark_tab t sel d ! n = d ! n"
  by (simp add: mark_tab_def setAttribute_def classList_add_def classList_remove_def)

lemma attrs_mark_tab_hidden: "attrs (mark_tab t sel d ! n) ''hidden'' = attrs (d ! n) ''hidden''"
  by (simp add: mark_tab_def attrs_setAttribute_other attrs_classList_add attrs_classList_remove)

lemma attrs_mark_tab_selected:
  "t < length d \<Longrightarrow>
     attrs (mark_tab t sel d ! t) ''aria-selected'' = Some (if sel then ''true'' else ''false'')"
  by (simp add: mark_tab_def attrs_setAttribute_other attrs_classList_add attrs_classList_remove
      attrs_setAttribute)

lemma length_mark_tabs: "length (mark_tabs ts i index d) = length d"
  by (induction ts arbitrary: i d) (simp_all add: length_mark_tab)

lemma mark_tabs_other: "n \<notin> set ts \<Longrightarrow> mark_tabs ts i index d ! n = d ! n"
  by (induction ts arbitrary: i d) (simp_all add: mark_tab_other)

lemma mark_tabs_hidden: "attrs (mark_tabs ts i index d ! n) ''hidden'' = attrs (d ! n) ''hidden''"
  by (induction ts arbitrary: i d) (simp_all add: attrs_mark_tab_hidden)

lemma mark_tabs_selected:
  assumes "distinct ts" and "\<forall>t \<in> set ts. t < length d" and "j < length ts"
  shows "attrs (mark_tabs ts i index d ! (ts ! j)) ''aria-selected''
          = Some (if i + j = index then ''true'' else ''false'')"
  using assms
proof (induction ts arbitrary: i j d)
  case Nil
  then show ?case by simp
next
  case (Cons t ts)
  show ?case
  proof (cases j)
    case 0
    with Cons.prems show ?thesis
      by (simp add: mark_tabs_other attrs_mark_tab_selected)
  next
    case (Suc j')
    with Cons.prems have "attrs (mark_tabs ts (i + 1) index (mark_tab t (i = index) d) ! (ts ! j'))
        ''aria-selected'' = Some (if (i + 1) + j' = index then ''true'' else ''false'')"
      by (intro Cons.IH) (simp_all add: length_mark_tab)
    with Suc show ?thesis by simp
  qed
qed

lemma length_mark_panels: "length (mark_panels ps i index d) = length d"
  by (induction ps arbitrary: i d) (simp_all add: length_set_hidden split: option.split)

lemma mark_panels_other: "n \<notin> set (existing ps) \<Longrightarrow> mark_panels ps i index d ! n = d ! n"
  by (induction ps arbitrary: i d rule: existing.induct) (simp_all add: set_hidden_other)

lemma mark_panels_attrs:
  "a \<noteq> ''hidden'' \<Longrightarrow> attrs (mark_panels ps i index d ! n) a = attrs (d ! n) a"
  by (induction ps arbitrary: i d rule: existing.induct) (simp_all add: attrs_set_hidden_other)

lemma mark_panels_hidden:
  assumes "distinct (existing ps)" and "\<forall>p \<in> set (existing ps). p < length d"
    and "j < length ps" and "ps ! j = Some p"
  shows "is_hidden p (mark_panels ps i index d) = (i + j \<noteq> index)"
  using assms
proof (induction ps arbitrary: i j d rule: existing.induct)
  case 1
  then show ?case by simp
next
  case (2 ps)
  then obtain j' where j: "j = Suc j'"
    by (cases j) auto
  with 2 have "is_hidden p (mark_panels ps (i + 1) index d) = ((i + 1) + j' \<noteq> index)"
    by (intro "2.IH") simp_all
  with j show ?case by simp
next
  case (3 q ps)
  show ?case
  proof (cases j)
    case 0
    with "3.prems" have "q = p" and "p \<notin> set (existing ps)" and "p < length d"
      by auto
    then have "mark_panels ps (i + 1) index (set_hidden q (i \<noteq> index) d) ! p
        = set_hidden p (i \<noteq> index) d ! p"
      by (simp add: mark_panels_other)
    then have "is_hidden p (mark_panels (Some q # ps) i index d)
        = is_hidden p (set_hidden p (i \<noteq> index) d)"
      by (simp add: is_hidden_def)
    with \<open>p < length d\<close> 0 show ?thesis
      by (simp add: is_hidden_set_hidden)
  next
    case (Suc j')
    with "3.prems" have "is_hidden p (mark_panels ps (i + 1) index (set_hidden q (i \<noteq> index) d))
        = ((i + 1) + j' \<noteq> index)"
      by (intro "3.IH") (simp_all add: length_set_hidden)
    with Suc show ?thesis by simp
  qed
qed

section \<open>Accordion clicks\<close>

lemma panelOf_Some:
  "panelOf t d = Some p \<Longrightarrow>
     \<exists>i. attrs (d ! t) ''aria-controls'' = Some i \<and> i \<noteq> [] \<and> getElementById i d = Some p
       \<and> p < length d"
  by (auto simp: panelOf_def getElementById_empty split: option.splits
      dest: getElementById_Some)

lemma toggle_no_panel: "panelOf t d = None \<Longrightarrow> toggleAccordionPanel t d = d"
  by (auto simp: panelOf_def toggleAccordionPanel_def split: option.splits)

lemma toggle_panel:
  "panelOf t d = Some p \<Longrightarrow>
     toggleAccordionPanel t d =
       (if expanded t d
        then setAttribute p ''hidden'' [] (setAttribute t ''aria-expanded'' ''false'' d)
        else removeAttribute p ''hidden'' (setAttribute t ''aria-expanded'' ''true'' d))"
  by (auto simp: panelOf_def toggleAccordionPanel_def expanded_def Let_def getElementById_empty
      split: option.splits)

lemma length_toggle: "length (toggleAccordionPanel t d) = length d"
  by (cases "panelOf t d")
    (simp_all add: toggle_no_panel toggle_panel length_setAttribute length_removeAttribute)

lemma ids_toggle: "ids (toggleAccordionPanel t d) = ids d"
  by (cases "panelOf t d")
    (simp_all add: toggle_no_panel toggle_panel ids_setAttribute ids_removeAttribute)

lemma attrs_toggle_other:
  "b \<noteq> ''aria-expanded'' \<Longrightarrow> b \<noteq> ''hidden'' \<Longrightarrow>
     attrs (toggleAccordionPanel t d ! n) b = attrs (d ! n) b"
  by (cases "panelOf t d")
    (simp_all add: toggle_no_panel toggle_panel attrs_setAttribute_other
      attrs_removeAttribute_other)

lemma panelOf_toggle: "panelOf t' (toggleAccordionPanel t d) = panelOf t' d"
proof -
  have "getElementById i (toggleAccordionPanel t d) = getElementById i d" for i
    by (rule getElementById_ids) (rule ids_toggle)
  then show ?thesis
    by (simp add: panelOf_def attrs_toggle_other split: option.split)
qed

lemma expanded_toggle_self:
  assumes "t < length d" and "panelOf t d = Some p"
  shows "expanded t (toggleAccordionPanel t d) = (\<not> expanded t d)"
  using assms
  by (simp add: toggle_panel expanded_def attrs_setAttribute attrs_setAttribute_other
      attrs_removeAttribute_other)

lemma hidden_toggle_self:
  assumes "panelOf t d = Some p"
  shows "is_hidden p (toggleAccordionPanel t d) = expanded t d"
proof -
  from assms have "p < length d"
    using panelOf_Some by blast
  then show ?thesis
    using assms
    by (simp add: toggle_panel is_hidden_def attrs_setAttribute attrs_removeAttribute
        length_setAttribute)
qed

lemma expanded_toggle_other:
  "t' \<noteq> t \<Longrightarrow> expanded t (toggleAccordionPanel t' d) = expanded t d"
proof (cases "panelOf t' d")
  case None
  then show ?thesis by (simp add: toggle_no_panel)
next
  case (Some q)
  assume "t' \<noteq> t"
  then have "attrs (setAttribute t' ''aria-expanded'' v d ! t) b = attrs (d ! t) b" for v b
    by (cases "t' < length d") (simp_all add: setAttribute_def list_update_beyond)
  then show ?thesis
    using Some
    by (simp add: toggle_panel expanded_def attrs_setAttribute_other attrs_removeAttribute_other)
qed

lemma hidden_toggle_other:
  assumes "panelOf t' d \<noteq> Some p"
  shows "is_hidden p (toggleAccordionPanel t' d) = is_hidden p d"
proof (cases "panelOf t' d")
  case None
  then show ?thesis by (simp add: toggle_no_panel)
next
  case (Some q)
  with assms have qp: "q \<noteq> p" by simp
  have "attrs (setAttribute q ''hidden'' v e ! p) b = attrs (e ! p) b" for v b e
    using qp by (cases "q < length e") (simp_all add: setAttribute_def list_update_beyond)
  moreover have "attrs (removeAttribute q ''hidden'' e ! p) b = attrs (e ! p) b" for b e
    using qp by (cases "q < length e") (simp_all add: removeAttribute_def list_update_beyond)
  ultimately show ?thesis
    using Some by (simp add: toggle_panel is_hidden_def attrs_setAttribute_other)
qed

lemma clicks_lockstep:
  assumes "panelOf t d = Some p"
    and "expanded t d = (\<not> is_hidden p d)"
    and "\<forall>c \<in> set cs. c \<noteq> t \<longrightarrow> panelOf c d \<noteq> Some p"
    and "t < length d"
  shows "expanded t (fold (accordionClick triggers) cs d)
          = (\<not> is_hidden p (fold (accordionClick triggers) cs d))
    \<and> panelOf t (fold (accordionClick triggers) cs d) = Some p"
  using assms
proof (induction cs arbitrary: d)
  case Nil
  then show ?case by simp
next
  case (Cons c cs)
  let ?d = "accordionClick triggers c d"
  have len: "t < length ?d"
    using Cons.prems(4) by (simp add: accordionClick_def length_toggle)
  have pan: "panelOf x ?d = panelOf x d" for x
    by (simp add: accordionClick_def panelOf_toggle)
  have inv: "expanded t ?d = (\<not> is_hidden p ?d)"
  proof (cases "c \<in> set triggers")
    case False
    then show ?thesis using Cons.prems(2) by (simp add: accordionClick_def)
  next
    case True
    show ?thesis
    proof (cases "c = t")
      case True
      with \<open>c \<in> set triggers\<close> Cons.prems(1,4) show ?thesis
        by (simp add: accordionClick_def expanded_toggle_self hidden_toggle_self)
    next
      case False
      with Cons.prems(3) have "panelOf c d \<noteq> Some p" by simp
      with False True Cons.prems(2) show ?thesis
        by (simp add: accordionClick_def expanded_toggle_other hidden_toggle_other)
    qed
  qed
  have "expanded t (fold (accordionClick triggers) cs ?d)
          = (\<not> is_hidden p (fold (accordionClick triggers) cs ?d))
    \<and> panelOf t (fold (accordionClick triggers) cs ?d) = Some p"
    using Cons.prems(1,3) len inv by (intro Cons.IH) (simp_all add: pan)
  then show ?case by simp
qed

lemmas sample_defs = node_def accordion_doc_def loose_accordion_doc_def shared_panel_doc_def
  tabs_doc_def report_doc_def report_env_def
lemmas dom_defs = panelOf_def expanded_def is_hidden_def shown_def initAccordions_def accordionClick_def
  toggleAccordionPanel_def setAttribute_def removeAttribute_def Let_def

lemmas tab_defs = initTabs_def activateTab_def tabKeydown_def mark_tab_def set_hidden_def
  classList_add_def classList_remove_def

text \<open>
  C5 (as amended). For a trigger \<open>t\<close> whose \<^verbatim>\<open>aria-controls\<close> names an existing panel \<open>p\<close>: a
  click on \<open>t\<close> flips whether \<^verbatim>\<open>aria-expanded\<close> is \<^verbatim>\<open>true\<close>, and hides the panel exactly
  when the trigger was expanded; so after every click on \<open>t\<close> the trigger is expanded
  exactly when the panel is not hidden. If the two agree in the document at hand (the
  markup, after initialization), they agree after every sequence of clicks in which no
  other trigger controls the same panel.
\<close>

theorem accordion_click_lockstep:
  assumes "t < length d" and "panelOf t d = Some p" and "t \<in> set triggers"
  shows "expanded t (accordionClick triggers t d) = (\<not> expanded t d)
     \<and> is_hidden p (accordionClick triggers t d) = expanded t d
     \<and> expanded t (accordionClick triggers t d) = (\<not> is_hidden p (accordionClick triggers t d))
     \<and> (expanded t d = (\<not> is_hidden p d) \<and> (\<forall>c \<in> set cs. c \<noteq> t \<longrightarrow> panelOf c d \<noteq> Some p) \<longrightarrow>
          expanded t (fold (accordionClick triggers) cs d)
            = (\<not> is_hidden p (fold (accordionClick triggers) cs d)))"
proof -
  have e: "expanded t (accordionClick triggers t d) = (\<not> expanded t d)"
    using assms by (simp add: accordionClick_def expanded_toggle_self)
  have h: "is_hidden p (accordionClick triggers t d) = expanded t d"
    using assms by (simp add: accordionClick_def hidden_toggle_self)
  have s: "expanded t (fold (accordionClick triggers) cs d)
            = (\<not> is_hidden p (fold (accordionClick triggers) cs d))"
    if "expanded t d = (\<not> is_hidden p d)" and "\<forall>c \<in> set cs. c \<noteq> t \<longrightarrow> panelOf c d \<noteq> Some p"
    using clicks_lockstep [OF assms(2) that assms(1)] by simp
  from e h s show ?thesis by simp
qed

theorem accordion_click_lockstep_witness:
  "0 < length two_accordions_doc \<and> panelOf 0 two_accordions_doc = Some 2
   \<and> 0 \<in> set (initAccordions two_accordions_doc)
   \<and> panelOf 1 two_accordions_doc \<noteq> Some 2
   \<and> expanded 0 two_accordions_doc = (\<not> is_hidden 2 two_accordions_doc)
   \<and> expanded 0 (accordionClick (initAccordions two_accordions_doc) 0 two_accordions_doc)
   \<and> \<not> is_hidden 2 (accordionClick (initAccordions two_accordions_doc) 0 two_accordions_doc)
   \<and> expanded 0 (fold (accordionClick (initAccordions two_accordions_doc)) [1, 0, 1, 0, 0]
        two_accordions_doc)
   \<and> \<not> is_hidden 2 (fold (accordionClick (initAccordions two_accordions_doc)) [1, 0, 1, 0, 0]
        two_accordions_doc)"
  using accordion_click_lockstep [of 0 two_accordions_doc 2 "initAccordions two_accordions_doc"
      "[1, 0, 1, 0, 0]"]
  by (simp add: two_accordions_doc_def sample_defs dom_defs)

text \<open>
  The claim as stated fails. With a panel left visible in the markup next to a collapsed
  trigger, the two attributes disagree right after initialization, and the first click
  does not toggle \<^verbatim>\<open>hidden\<close>. With two triggers for one panel, a click on the first leaves
  the second collapsed beside a visible panel.
\<close>

theorem accordion_not_lockstep_counterexample:
  "panelOf 0 loose_accordion_doc = Some 1
   \<and> 0 \<in> set (initAccordions loose_accordion_doc)
   \<and> expanded 0 loose_accordion_doc \<noteq> (\<not> is_hidden 1 loose_accordion_doc)
   \<and> is_hidden 1 (accordionClick (initAccordions loose_accordion_doc) 0 loose_accordion_doc)
       = is_hidden 1 loose_accordion_doc
   \<and> panelOf 1 shared_panel_doc = Some 2
   \<and> 1 \<in> set (initAccordions shared_panel_doc)
   \<and> expanded 1 shared_panel_doc = (\<not> is_hidden 2 shared_panel_doc)
   \<and> expanded 1 (accordionClick (initAccordions shared_panel_doc) 0 shared_panel_doc)
       \<noteq> (\<not> is_hidden 2 (accordionClick (initAccordions shared_panel_doc) 0 shared_panel_doc))"
  by (simp add: sample_defs dom_defs)

section \<open>Tab activation\<close>

text \<open>
  C6. In a tab group (distinct tabs, each existing panel the panel of one tab), the End
  key on the tab at any index activates the tab at index \<open>length tabs - 1\<close> and focuses
  it. Activating the tab at index \<open>i\<close> marks the tab at every index \<open>j\<close> selected exactly
  when \<open>j = i\<close>, and leaves the panel at index \<open>j\<close> hidden exactly when \<open>j \<noteq> i\<close>.
\<close>

theorem tabs_end_key_and_activation:
  assumes "distinct (tabs env)" and "\<forall>t \<in> set (tabs env). t < length d"
    and "distinct (existing (panels env))" and "\<forall>p \<in> set (existing (panels env)). p < length d"
    and "length (panels env) = length (tabs env)" and "j < length (tabs env)"
  shows "tabKeydown env index ''End'' d
           = (activateTab env (length (tabs env) - 1) d, Some (tabs env ! (length (tabs env) - 1)))
     \<and> attrs (activateTab env i d ! (tabs env ! j)) ''aria-selected''
           = Some (if j = i then ''true'' else ''false'')
     \<and> (\<forall>p. panels env ! j = Some p \<longrightarrow> is_hidden p (activateTab env i d) = (j \<noteq> i))"
proof -
  let ?d = "mark_tabs (tabs env) 0 i d"
  have k: "tabKeydown env index ''End'' d
           = (activateTab env (length (tabs env) - 1) d, Some (tabs env ! (length (tabs env) - 1)))"
    by (simp add: tabKeydown_def Let_def)
  have "attrs (activateTab env i d ! (tabs env ! j)) ''aria-selected''
      = attrs (?d ! (tabs env ! j)) ''aria-selected''"
    by (simp add: activateTab_def mark_panels_attrs)
  also have "\<dots> = Some (if 0 + j = i then ''true'' else ''false'')"
    using assms(1,2,6) by (rule mark_tabs_selected)
  finally have a: "attrs (activateTab env i d ! (tabs env ! j)) ''aria-selected''
      = Some (if j = i then ''true'' else ''false'')"
    by simp
  have h: "is_hidden p (activateTab env i d) = (j \<noteq> i)" if "panels env ! j = Some p" for p
  proof -
    have "is_hidden p (mark_panels (panels env) 0 i ?d) = (0 + j \<noteq> i)"
      using assms(3,4,5,6) that by (intro mark_panels_hidden) (simp_all add: length_mark_tabs)
    then show ?thesis by (simp add: activateTab_def)
  qed
  from k a h show ?thesis by blast
qed

theorem tabs_end_key_and_activation_witness:
  "initTabs [0, 1] tabs_doc = \<lparr>tabs = [0, 1], panels = [Some 2, Some 3]\<rparr>
   \<and> distinct (tabs (initTabs [0, 1] tabs_doc))
   \<and> distinct (existing (panels (initTabs [0, 1] tabs_doc)))
   \<and> length tabs_doc = 4
   \<and> snd (tabKeydown (initTabs [0, 1] tabs_doc) 0 ''End'' tabs_doc) = Some 1
   \<and> attrs (fst (tabKeydown (initTabs [0, 1] tabs_doc) 0 ''End'' tabs_doc) ! 1) ''aria-selected''
       = Some ''true''
   \<and> is_hidden 2 (activateTab (initTabs [0, 1] tabs_doc) 1 tabs_doc)
   \<and> \<not> is_hidden 3 (activateTab (initTabs [0, 1] tabs_doc) 1 tabs_doc)"
  using tabs_end_key_and_activation [of "initTabs [0, 1] tabs_doc" tabs_doc 1 0 1]
    tabs_end_key_and_activation [of "initTabs [0, 1] tabs_doc" tabs_doc 0 0 1]
  by (simp add: sample_defs dom_defs tab_defs)

section \<open>Filtering the report list\<close>

lemma item_matches_attrs:
  "attrs e' = attrs e \<Longrightarrow> item_matches lower periodo tipo busca e' = item_matches lower periodo tipo busca e"
  by (simp add: item_matches_def dataset_or_empty_def)

lemma item_matches_criteria:
  "item_matches lower periodo tipo busca e = meets_criteria lower periodo tipo busca e"
  by (auto simp: item_matches_def meets_criteria_def dataset_or_empty_def Let_def)

lemma filtrar_items_length:
  "length (fst (filtrar_items lower periodo tipo busca is (d, n))) = length d"
  by (induction "is" arbitrary: d n)
    (simp_all add: length_classList_add length_classList_remove)

lemma filtrar_items_attrs:
  "attrs (fst (filtrar_items lower periodo tipo busca is (d, n)) ! k) = attrs (d ! k)"
  by (induction "is" arbitrary: d n)
    (simp_all add: attrs_classList_add attrs_classList_remove)

lemma filtrar_items_other:
  "k \<notin> set is \<Longrightarrow> fst (filtrar_items lower periodo tipo busca is (d, n)) ! k = d ! k"
  by (induction "is" arbitrary: d n)
    (simp_all add: classList_add_other classList_remove_other)

lemma filtrar_items_shown:
  assumes "distinct is" and "\<forall>i \<in> set is. i < length d" and "i \<in> set is"
  shows "shown i (fst (filtrar_items lower periodo tipo busca is (d, n)))
          = item_matches lower periodo tipo busca (d ! i)"
  using assms
proof (induction "is" arbitrary: d n)
  case Nil
  then show ?case by simp
next
  case (Cons x xs)
  let ?m = "item_matches lower periodo tipo busca"
  let ?d = "if ?m (d ! x) then classList_remove ''audin-hidden'' x d
            else classList_add ''audin-hidden'' x d"
  let ?n = "if ?m (d ! x) then n + 1 else n"
  have step: "filtrar_items lower periodo tipo busca (x # xs) (d, n)
      = filtrar_items lower periodo tipo busca xs (?d, ?n)"
    by simp
  have len: "length ?d = length d"
    by (simp add: length_classList_add length_classList_remove)
  have att: "attrs (?d ! k) = attrs (d ! k)" for k
    by (simp add: attrs_classList_add attrs_classList_remove)
  show ?case
  proof (cases "i = x")
    case True
    with Cons.prems have "x \<notin> set xs" and "x < length d" by auto
    then have "shown x (fst (filtrar_items lower periodo tipo busca xs (?d, ?n))) = shown x ?d"
      by (simp add: shown_def filtrar_items_other)
    also have "\<dots> = ?m (d ! x)"
      using \<open>x < length d\<close> by (simp add: shown_add shown_remove)
    finally show ?thesis
      using True step by simp
  next
    case False
    with Cons.prems have "shown i (fst (filtrar_items lower periodo tipo busca xs (?d, ?n)))
        = ?m (?d ! i)"
      by (intro Cons.IH) (simp_all add: len)
    also have "\<dots> = ?m (d ! i)"
      by (rule item_matches_attrs) (rule att)
    finally show ?thesis
      using step by simp
  qed
qed

lemma filtrar_items_count:
  "snd (filtrar_items lower periodo tipo busca is (d, n))
     = n + length (filter (\<lambda>i. item_matches lower periodo tipo busca (d ! i)) is)"
proof (induction "is" arbitrary: d n)
  case Nil
  then show ?case by simp
next
  case (Cons x xs)
  have "item_matches lower periodo tipo busca (classList_remove c x d ! i)
      = item_matches lower periodo tipo busca (d ! i)" for c i
    by (rule item_matches_attrs) (rule attrs_classList_remove)
  moreover have "item_matches lower periodo tipo busca (classList_add c x d ! i)
      = item_matches lower periodo tipo busca (d ! i)" for c i
    by (rule item_matches_attrs) (rule attrs_classList_add)
  ultimately show ?case
    by (simp add: Cons.IH)
qed

lemma filtrar_unfold:
  "filtrar lower trim env d =
     (let r = filtrar_items lower (control_value (periodoSelect env) d)
                (control_value (tipoSelect env) d) (search_text lower trim env d)
                (items env) (d, 0)
      in case vazioMsg env of
           None \<Rightarrow> fst r
         | Some v \<Rightarrow>
             if snd r = 0 then classList_remove ''audin-hidden'' v (fst r)
             else classList_add ''audin-hidden'' v (fst r))"
  by (simp add: filtrar_def search_text_def Let_def case_prod_beta)

text \<open>
  C10. After a run of \<open>filtrar\<close> (the items distinct elements of the document, the
  empty-list message not one of them), an item is shown, that is, lacks the class
  \<^verbatim>\<open>audin-hidden\<close>, exactly when it meets the three criteria for the selected period,
  the selected type and the search text; and the empty-list message, if there is one, is
  shown exactly when no item is shown.
\<close>

theorem filtrar_shows_matching_items:
  assumes "distinct (items env)" and "\<forall>i \<in> set (items env). i < length d"
    and "\<forall>v. vazioMsg env = Some v \<longrightarrow> v < length d \<and> v \<notin> set (items env)"
  shows "(\<forall>i \<in> set (items env).
            shown i (filtrar lower trim env d)
              = meets_criteria lower (control_value (periodoSelect env) d)
                  (control_value (tipoSelect env) d) (search_text lower trim env d) (d ! i))
     \<and> (\<forall>v. vazioMsg env = Some v \<longrightarrow>
            shown v (filtrar lower trim env d)
              = (\<forall>i \<in> set (items env). \<not> shown i (filtrar lower trim env d)))"
proof -
  let ?p = "control_value (periodoSelect env) d"
  let ?t = "control_value (tipoSelect env) d"
  let ?b = "search_text lower trim env d"
  let ?r = "filtrar_items lower ?p ?t ?b (items env) (d, 0)"
  let ?m = "\<lambda>i. item_matches lower ?p ?t ?b (d ! i)"
  have items_same: "shown i (filtrar lower trim env d) = shown i (fst ?r)"
    if "i \<in> set (items env)" for i
  proof (cases "vazioMsg env")
    case None
    then show ?thesis by (simp add: filtrar_unfold)
  next
    case (Some v)
    with assms(3) that have "i \<noteq> v" by auto
    with Some show ?thesis
      by (simp add: filtrar_unfold Let_def shown_add_other shown_remove_other)
  qed
  have items_shown: "shown i (filtrar lower trim env d) = ?m i" if "i \<in> set (items env)" for i
    using that assms(1,2) by (simp add: items_same filtrar_items_shown)
  have count: "(snd ?r = 0) = (\<forall>i \<in> set (items env). \<not> ?m i)"
    by (simp add: filtrar_items_count filter_empty_conv)
  have msg: "shown v (filtrar lower trim env d)
      = (\<forall>i \<in> set (items env). \<not> shown i (filtrar lower trim env d))"
    if v: "vazioMsg env = Some v" for v
  proof -
    from assms(3) v have "v < length (fst ?r)"
      by (simp add: filtrar_items_length)
    then have "shown v (filtrar lower trim env d) = (snd ?r = 0)"
      using v by (simp add: filtrar_unfold Let_def shown_add shown_remove)
    then show ?thesis
      using count items_shown by simp
  qed
  show ?thesis
    using items_shown msg by (simp add: item_matches_criteria)
qed

theorem filtrar_shows_matching_items_witness:
  "distinct (items report_env)
   \<and> 2 < length report_doc \<and> 3 < length report_doc \<and> 4 < length report_doc
   \<and> 4 \<notin> set (items report_env)
   \<and> shown 2 (filtrar id id report_env report_doc)
   \<and> \<not> shown 3 (filtrar id id report_env report_doc)
   \<and> \<not> shown 4 (filtrar id id report_env report_doc)
   \<and> meets_criteria id ''2024'' [] [] (report_doc ! 2)
   \<and> \<not> meets_criteria id ''2024'' [] [] (report_doc ! 3)"
  using filtrar_shows_matching_items [of report_env report_doc id id]
  by (simp add: sample_defs dom_defs tab_defs filtrar_def control_value_def item_matches_def
      dataset_or_empty_def meets_criteria_def search_text_def)

section \<open>The path of the gauge arc\<close>

lemma split_on_none: "c \<notin> set a \<Longrightarrow> split_on c a = [a]"
  by (induction a) auto

lemma split_on_append: "c \<notin> set a \<Longrightarrow> split_on c (a @ c # rest) = a # split_on c rest"
  by (induction a) auto

lemma digit_char_in: "n < 10 \<Longrightarrow> digit_char n \<in> set ''0123456789''"
  unfolding digit_char_def by (rule nth_mem) simp

lemma digits_no_space: "CHR '' '' \<notin> set (digits n)"
proof (induction n rule: digits.induct)
  case (1 n)
  have c: "digit_char m \<noteq> CHR '' ''" if "m < 10" for m
    using digit_char_in [OF that] by auto
  show ?case
  proof (cases "n < 10")
    case True
    then show ?thesis
      using c [of n] by (subst digits.simps) simp
  next
    case False
    then show ?thesis
      using 1 c [of "n mod 10"] by (subst digits.simps) simp
  qed
qed

lemma nts_whole_no_space: "CHR '' '' \<notin> set (nts_whole x)"
  by (simp add: nts_whole_def digits_no_space)

lemma digits_radius: "digits (radius (gauge_values pf p)) = ''80''"
  by (simp add: gauge_values_def Let_def digits.simps digit_char_def)

lemma digits_flag: "digits (largeArcFlag (gauge_values pf p)) = (if 50 < p then ''1'' else ''0'')"
  by (simp add: gauge_values_def Let_def digits.simps digit_char_def)

lemma path_tokens:
  assumes "\<forall>x. CHR '' '' \<notin> set (nts pf x)"
  shows "split_on (CHR '' '') (calculateGaugeArc pf p)
      = [''M'', nts pf (startX (gauge_values pf p)), nts pf (startY (gauge_values pf p)), ''A'',
         ''80'', ''80'', ''0'', (if 50 < p then ''1'' else ''0''), ''1'',
         nts pf (endX (gauge_values pf p)), nts pf (endY (gauge_values pf p))]"
  using assms
  by (simp add: calculateGaugeArc_def pathString_def digits_radius digits_flag split_on_append
      split_on_none)

lemma path_73_5:
  "calculateGaugeArc pf 73.5
     = ''M '' @ nts pf (startX (gauge_values pf 73.5)) @ '' ''
       @ nts pf (startY (gauge_values pf 73.5)) @ '' A 80 80 0 1 1 ''
       @ nts pf (endX (gauge_values pf 73.5)) @ '' '' @ nts pf (endY (gauge_values pf 73.5))"
  by (simp add: calculateGaugeArc_def pathString_def digits_radius digits_flag)

lemma endX_exact: "endX (gauge_values exact_platform p) = 100 + 80 * cos (pi - p / 100 * pi)"
  by (simp add: gauge_values_def exact_platform_def Let_def add_def sub_def mul_def dvd_num_def)

lemma endY_exact: "endY (gauge_values exact_platform p) = 100 - 80 * sin (pi - p / 100 * pi)"
  by (simp add: gauge_values_def exact_platform_def Let_def add_def sub_def mul_def dvd_num_def)

lemma endX_tendsto:
  "((\<lambda>p. endX (gauge_values exact_platform p)) \<longlongrightarrow> 100 + 80 * cos (pi - a / 100 * pi)) (at a)"
  unfolding endX_exact by (intro tendsto_intros) simp

lemma endY_tendsto:
  "((\<lambda>p. endY (gauge_values exact_platform p)) \<longlongrightarrow> 100 - 80 * sin (pi - a / 100 * pi)) (at a)"
  unfolding endY_exact by (intro tendsto_intros) simp

section \<open>Rounding to double precision\<close>

lemma round53_binade:
  assumes "2 powr of_int e \<le> \<bar>x\<bar>" and "\<bar>x\<bar> < 2 powr (of_int e + 1)"
  shows "round53 x = of_int (round (x / 2 powr (of_int e - 52))) * 2 powr (of_int e - 52)"
proof -
  have pos: "0 < \<bar>x\<bar>"
    using assms(1) powr_gt_zero [of 2 "of_int e"] by linarith
  then have nz: "x \<noteq> 0" by auto
  have "\<lfloor>log 2 \<bar>x\<bar>\<rfloor> = e"
    using assms pos by (subst floor_log_eq_powr_iff) simp_all
  then show ?thesis
    using nz by (simp add: round53_def Let_def)
qed

lemma round53_nearest:
  assumes "2 powr of_int e \<le> \<bar>x\<bar>" and "\<bar>x\<bar> < 2 powr (of_int e + 1)"
    and "\<bar>x - of_int m * 2 powr (of_int e - 52)\<bar> < 2 powr (of_int e - 52) / 2"
  shows "round53 x = of_int m * 2 powr (of_int e - 52)"
proof -
  let ?u = "2 powr (of_int e - 52) :: real"
  have u: "0 < ?u" by simp
  have "\<bar>x / ?u - of_int m\<bar> = \<bar>x - of_int m * ?u\<bar> / ?u"
    using u by (simp add: field_simps abs_mult [symmetric] del: powr_gt_zero)
  also have "\<dots> < 1 / 2"
    using assms(3) u by (simp add: field_simps)
  finally have "round (x / ?u) = m"
    by (rule round_unique')
  then show ?thesis
    using round53_binade [OF assms(1,2)] by simp
qed

lemma round53_abs_le: "\<bar>round53 x\<bar> \<le> 2 * \<bar>x\<bar>"
proof (cases "x = 0")
  case True
  then show ?thesis by (simp add: round53_def)
next
  case False
  define e where "e = \<lfloor>log 2 \<bar>x\<bar>\<rfloor>"
  let ?u = "2 powr (of_int e - 52) :: real"
  have u: "0 < ?u" by simp
  from False have pos: "0 < \<bar>x\<bar>" by simp
  have "2 powr of_int e \<le> \<bar>x\<bar>"
    using pos floor_log_eq_powr_iff [of "\<bar>x\<bar>" 2 e] by (simp add: e_def)
  moreover have "2 powr of_int e = 2 ^ 52 * ?u"
    by (simp add: powr_diff)
  ultimately have big: "2 ^ 52 \<le> \<bar>x\<bar> / ?u"
    using u by (simp add: field_simps)
  have "\<bar>of_int (round (x / ?u)) :: real\<bar> \<le> \<bar>x / ?u\<bar> + 1 / 2"
    using of_int_round_abs_le [of "x / ?u"] by linarith
  also have "\<dots> \<le> 2 * \<bar>x / ?u\<bar>"
    using big u by (simp add: abs_divide)
  finally have r: "\<bar>of_int (round (x / ?u)) :: real\<bar> \<le> 2 * \<bar>x / ?u\<bar>" .
  have "\<bar>of_int (round (x / ?u)) * ?u\<bar> = \<bar>of_int (round (x / ?u)) :: real\<bar> * ?u"
    using u by (simp add: abs_mult)
  also have "\<dots> \<le> 2 * \<bar>x / ?u\<bar> * ?u"
    using r u by (intro mult_right_mono) simp_all
  also have "\<dots> = 2 * \<bar>x\<bar>"
    using u by (simp add: abs_divide)
  finally show ?thesis
    using False by (simp add: round53_def Let_def e_def)
qed

lemma two_powr_neg: "2 powr (- real n) = 1 / 2 ^ n"
  by (simp add: powr_minus powr_realpow inverse_eq_divide)

lemma two_powr_pos: "2 powr (real n) = 2 ^ n"
  by (simp add: powr_realpow)

lemma round53_near_pi:
  assumes "\<bar>q\<bar> < 1 / 2 ^ 53"
  shows "round53 (ieee_pi - q) = ieee_pi"
proof -
  have q: "- (1 / 2 ^ 53) < q" "q < 1 / 2 ^ 53"
    using assms by (simp_all add: abs_less_iff)
  have p: "ieee_pi = of_int 7074237752028440 * 2 powr (of_int 1 - 52)"
    using two_powr_neg [of 51] by (simp add: ieee_pi_def)
  have b: "3 < ieee_pi" "ieee_pi < 7 / 2"
    by (simp_all add: ieee_pi_def)
  have "round53 (ieee_pi - q) = of_int 7074237752028440 * 2 powr (of_int 1 - 52)"
  proof (rule round53_nearest)
    show "2 powr of_int 1 \<le> \<bar>ieee_pi - q\<bar>"
      using q b by simp
    show "\<bar>ieee_pi - q\<bar> < 2 powr (of_int 1 + 1)"
      using q b two_powr_pos [of 2] by (simp add: abs_less_iff)
    show "\<bar>ieee_pi - q - of_int 7074237752028440 * 2 powr (of_int 1 - 52)\<bar>
        < 2 powr (of_int 1 - 52) / 2"
      unfolding p [symmetric] using assms two_powr_neg [of 51] by simp
  qed
  then show ?thesis by (simp only: p [symmetric])
qed

lemma round53_minus_80: "round53 (- 80) = - 80"
proof -
  have "round53 (- 80) = of_int (- 5629499534213120) * 2 powr (of_int 6 - 52)"
    by (rule round53_nearest) (use two_powr_neg [of 46] two_powr_pos [of 6] two_powr_pos [of 7] in simp_all)
  then show ?thesis
    using two_powr_neg [of 46] by simp
qed

lemma round53_20: "round53 20 = 20"
proof -
  have "round53 20 = of_int 5629499534213120 * 2 powr (of_int 4 - 52)"
    by (rule round53_nearest) (use two_powr_neg [of 48] two_powr_pos [of 4] two_powr_pos [of 5] in simp_all)
  then show ?thesis
    using two_powr_neg [of 48] by simp
qed

lemma round53_80_sin: "round53 (80 * ieee_sin_pi) = 6209697000026889 / 2 ^ 99"
proof -
  have "round53 (80 * ieee_sin_pi) = of_int 6209697000026889 * 2 powr (of_int (- 47) - 52)"
    by (rule round53_nearest)
      (use two_powr_neg [of 99] two_powr_neg [of 47] two_powr_neg [of 46] in
        \<open>simp_all add: ieee_sin_pi_def\<close>)
  then show ?thesis
    using two_powr_neg [of 99] by simp
qed

lemma round53_endY: "round53 (100 - 6209697000026889 / 2 ^ 99) = 100 - 1 / 2 ^ 46"
proof -
  have "round53 (100 - 6209697000026889 / 2 ^ 99)
      = of_int 7036874417766399 * 2 powr (of_int 6 - 52)"
    by (rule round53_nearest)
      (use two_powr_neg [of 46] two_powr_pos [of 6] two_powr_pos [of 7] in simp_all)
  then show ?thesis
    using two_powr_neg [of 46] by simp
qed

section \<open>The end point in double precision\<close>

lemma ieee_end_angle:
  assumes "\<bar>p\<bar> \<le> 1 / 2 ^ 60"
  shows "round53 (ieee_pi - round53 (round53 (p / 100) * ieee_pi)) = ieee_pi"
proof (rule round53_near_pi)
  let ?a = "round53 (p / 100)"
  have b: "0 < ieee_pi" "ieee_pi < 4"
    by (simp_all add: ieee_pi_def)
  have "\<bar>?a\<bar> \<le> 2 * \<bar>p / 100\<bar>"
    by (rule round53_abs_le)
  then have a: "\<bar>?a\<bar> \<le> \<bar>p\<bar> / 50"
    by simp
  have "\<bar>round53 (?a * ieee_pi)\<bar> \<le> 2 * \<bar>?a * ieee_pi\<bar>"
    by (rule round53_abs_le)
  also have "\<dots> = 2 * (\<bar>?a\<bar> * ieee_pi)"
    using b by (simp add: abs_mult)
  also have "\<dots> \<le> 2 * (\<bar>p\<bar> / 50 * 4)"
    using a b by (intro mult_left_mono mult_mono) simp_all
  also have "\<dots> \<le> \<bar>p\<bar>"
    by simp
  also have "\<dots> < 1 / 2 ^ 53"
    using assms by (rule order_le_less_trans) simp
  finally show "\<bar>round53 (?a * ieee_pi)\<bar> < 1 / 2 ^ 53" .
qed

lemma ieee_near_zero:
  assumes "\<bar>p\<bar> \<le> 1 / 2 ^ 60"
  shows "endX (gauge_values ieee_platform p) = 20"
    and "endY (gauge_values ieee_platform p) = 100 - 1 / 2 ^ 46"
proof -
  note a = ieee_end_angle [OF assms]
  have "endX (gauge_values ieee_platform p) = round53 (100 + round53 (80 * (- 1)))"
    using a
    by (simp add: gauge_values_def ieee_platform_def Let_def add_def sub_def mul_def dvd_num_def
        del: mult_minus_right)
  also have "\<dots> = round53 (100 + round53 (- 80))"
    by simp
  also have "\<dots> = round53 20"
    by (simp only: round53_minus_80) simp
  finally show "endX (gauge_values ieee_platform p) = 20"
    by (simp only: round53_20)
  have "endY (gauge_values ieee_platform p) = round53 (100 - round53 (80 * ieee_sin_pi))"
    using a
    by (simp add: gauge_values_def ieee_platform_def Let_def add_def sub_def mul_def dvd_num_def)
  also have "\<dots> = round53 (100 - 6209697000026889 / 2 ^ 99)"
    by (simp only: round53_80_sin)
  finally show "endY (gauge_values ieee_platform p) = 100 - 1 / 2 ^ 46"
    by (simp only: round53_endY)
qed

lemma ieee_endY_eventually:
  "eventually (\<lambda>p. endY (gauge_values ieee_platform p) = 100 - 1 / 2 ^ 46) (at_right 0)"
  unfolding eventually_at_right_field
proof (intro exI conjI allI impI)
  show "(0 :: real) < 1 / 2 ^ 60"
    by simp
  fix y :: real
  assume "0 < y" and "y < 1 / 2 ^ 60"
  then have "\<bar>y\<bar> \<le> 1 / 2 ^ 60"
    by (simp add: abs_le_iff)
  then show "endY (gauge_values ieee_platform y) = 100 - 1 / 2 ^ 46"
    by (rule ieee_near_zero(2))
qed

lemma ieee_not_leftmost:
  "\<not> ((\<lambda>p. endY (gauge_values ieee_platform p)) \<longlongrightarrow> 100) (at_right 0)"
proof
  assume l: "((\<lambda>p. endY (gauge_values ieee_platform p)) \<longlongrightarrow> 100) (at_right 0)"
  have "((\<lambda>p. endY (gauge_values ieee_platform p)) \<longlongrightarrow> 100 - 1 / 2 ^ 46) (at_right 0)"
    using ieee_endY_eventually by (rule tendsto_eventually)
  with l have "(100 :: real) = 100 - 1 / 2 ^ 46"
    by (intro tendsto_unique [of "at_right 0"]) simp_all
  then show False by simp
qed

lemma round53_0: "round53 0 = 0"
  by (simp add: round53_def)

lemma round53_1: "round53 1 = 1"
proof -
  have "round53 1 = of_int 4503599627370496 * 2 powr (of_int 0 - 52)"
    by (rule round53_nearest) (use two_powr_neg [of 52] in simp_all)
  then show ?thesis
    using two_powr_neg [of 52] by simp
qed

lemma round53_80: "round53 80 = 80"
proof -
  have "round53 80 = of_int 5629499534213120 * 2 powr (of_int 6 - 52)"
    by (rule round53_nearest) (use two_powr_neg [of 46] two_powr_pos [of 6] two_powr_pos [of 7] in simp_all)
  then show ?thesis
    using two_powr_neg [of 46] by simp
qed

lemma round53_100: "round53 100 = 100"
proof -
  have "round53 100 = of_int 7036874417766400 * 2 powr (of_int 6 - 52)"
    by (rule round53_nearest) (use two_powr_neg [of 46] two_powr_pos [of 6] two_powr_pos [of 7] in simp_all)
  then show ?thesis
    using two_powr_neg [of 46] by simp
qed

lemma round53_180: "round53 180 = 180"
proof -
  have "round53 180 = of_int 6333186975989760 * 2 powr (of_int 7 - 52)"
    by (rule round53_nearest) (use two_powr_neg [of 45] two_powr_pos [of 7] two_powr_pos [of 8] in simp_all)
  then show ?thesis
    using two_powr_neg [of 45] by simp
qed

lemma round53_pi: "round53 ieee_pi = ieee_pi"
  using round53_near_pi [of 0] by simp

lemma round53_near_1:
  assumes "\<bar>x - 1\<bar> < 1 / 2 ^ 54"
  shows "round53 x = 1"
proof -
  have x: "1 - 1 / 2 ^ 54 < x" "x < 1 + 1 / 2 ^ 54"
    using assms unfolding abs_less_iff by linarith+
  show ?thesis
  proof (cases "1 \<le> x")
    case True
    have "round53 x = of_int 4503599627370496 * 2 powr (of_int 0 - 52)"
    proof (rule round53_nearest)
      show "2 powr of_int 0 \<le> \<bar>x\<bar>"
        using True by simp
      show "\<bar>x\<bar> < 2 powr (of_int 0 + 1)"
        using True x by simp
      show "\<bar>x - of_int 4503599627370496 * 2 powr (of_int 0 - 52)\<bar> < 2 powr (of_int 0 - 52) / 2"
        using True x two_powr_neg [of 52] by simp
    qed
    then show ?thesis
      using two_powr_neg [of 52] by simp
  next
    case False
    have "round53 x = of_int 9007199254740992 * 2 powr (of_int (- 1) - 52)"
    proof (rule round53_nearest)
      show "2 powr of_int (- 1) \<le> \<bar>x\<bar>"
        using x two_powr_neg [of 1] by simp
      show "\<bar>x\<bar> < 2 powr (of_int (- 1) + 1)"
        using False x by simp
      show "\<bar>x - of_int 9007199254740992 * 2 powr (of_int (- 1) - 52)\<bar>
          < 2 powr (of_int (- 1) - 52) / 2"
        using False x two_powr_neg [of 53] by simp
    qed
    then show ?thesis
      using two_powr_neg [of 53] by simp
  qed
qed

lemma ieee_near_100:
  assumes "\<bar>p - 100\<bar> \<le> 1 / 2 ^ 50"
  shows "endX (gauge_values ieee_platform p) = 180"
    and "endY (gauge_values ieee_platform p) = 100"
proof -
  have "\<bar>p / 100 - 1\<bar> = \<bar>p - 100\<bar> / 100"
    by (simp add: field_simps)
  also have "\<dots> \<le> 1 / 2 ^ 50 / 100"
    using assms by (intro divide_right_mono) simp_all
  also have "\<dots> < 1 / 2 ^ 54"
    by simp
  finally have r: "round53 (p / 100) = 1"
    by (rule round53_near_1)
  have z: "ieee_pi \<noteq> 0"
    by (simp add: ieee_pi_def)
  have a: "round53 (ieee_pi - round53 (round53 (p / 100) * ieee_pi)) = 0"
    by (simp add: r round53_pi round53_0)
  have "endX (gauge_values ieee_platform p) = round53 (100 + round53 (80 * round53 (cos 0)))"
    using a z
    by (simp add: gauge_values_def ieee_platform_def Let_def add_def sub_def mul_def dvd_num_def)
  also have "\<dots> = round53 (100 + round53 80)"
    by (simp add: round53_1)
  also have "\<dots> = round53 180"
    by (simp only: round53_80) simp
  finally show "endX (gauge_values ieee_platform p) = 180"
    by (simp only: round53_180)
  have "endY (gauge_values ieee_platform p) = round53 (100 - round53 (80 * round53 (sin 0)))"
    using a z
    by (simp add: gauge_values_def ieee_platform_def Let_def add_def sub_def mul_def dvd_num_def)
  also have "\<dots> = round53 100"
    by (simp add: round53_0)
  finally show "endY (gauge_values ieee_platform p) = 100"
    by (simp only: round53_100)
qed

lemma ieee_rightmost:
  "((\<lambda>p. (endX (gauge_values ieee_platform p), endY (gauge_values ieee_platform p)))
      \<longlongrightarrow> (180, 100)) (at 100)"
proof (rule tendsto_eventually)
  show "eventually (\<lambda>p. (endX (gauge_values ieee_platform p), endY (gauge_values ieee_platform p))
      = (180, 100)) (at 100)"
    unfolding eventually_at
  proof (intro exI conjI ballI impI)
    show "(0 :: real) < 1 / 2 ^ 50"
      by simp
    fix x :: real
    assume "x \<noteq> 100 \<and> dist x 100 < 1 / 2 ^ 50"
    then have "\<bar>x - 100\<bar> \<le> 1 / 2 ^ 50"
      by (simp add: dist_real_def)
    then show "(endX (gauge_values ieee_platform x), endY (gauge_values ieee_platform x))
        = (180, 100)"
      by (simp add: ieee_near_100)
  qed
qed

section \<open>The gauge arc: flag and end point\<close>

lemma path_string:
  "calculateGaugeArc pf p
     = ''M '' @ nts pf (startX (gauge_values pf p)) @ '' ''
       @ nts pf (startY (gauge_values pf p)) @ '' A 80 80 0 ''
       @ (if 50 < p then ''1'' else ''0'') @ '' 1 ''
       @ nts pf (endX (gauge_values pf p)) @ '' '' @ nts pf (endY (gauge_values pf p))"
  by (simp add: calculateGaugeArc_def pathString_def digits_radius digits_flag)

lemma path_suffix: "suffix ('' '' @ nts pf (endY (gauge_values pf p))) (calculateGaugeArc pf p)"
proof -
  have "calculateGaugeArc pf p
     = (''M '' @ nts pf (startX (gauge_values pf p)) @ '' ''
       @ nts pf (startY (gauge_values pf p)) @ '' A 80 80 0 ''
       @ (if 50 < p then ''1'' else ''0'') @ '' 1 ''
       @ nts pf (endX (gauge_values pf p))) @ ('' '' @ nts pf (endY (gauge_values pf p)))"
    by (simp add: path_string)
  then show ?thesis
    unfolding suffix_def by blast
qed

lemma end_point_tendsto:
  "((\<lambda>p. (endX (gauge_values exact_platform p), endY (gauge_values exact_platform p)))
      \<longlongrightarrow> (100 + 80 * cos (pi - a / 100 * pi), 100 - 80 * sin (pi - a / 100 * pi))) (at a)"
  using endX_tendsto endY_tendsto by (rule tendsto_Pair)

lemma gauge_values_nts: "gauge_values (pf\<lparr>nts := f\<rparr>) p = gauge_values pf p"
  by (simp add: gauge_values_def add_def sub_def mul_def dvd_num_def)

text \<open>
  C2 (as amended). On every platform the path that \<open>calculateGaugeArc\<close> returns is the
  template filled in: where no number is printed with a space in it, it consists of eleven
  fields, the eighth of which, the large-arc flag, is \<^verbatim>\<open>1\<close> if the percentage exceeds 50
  and \<^verbatim>\<open>0\<close> if not, and the last two of which are the end point. In exact arithmetic the
  end point converges to the rightmost point (180, 100) as the percentage approaches 100
  and to the leftmost point (20, 100) as it approaches 0. In double precision the end
  point is (180, 100) for every percentage within 1 / 2 ^ 50 of 100, and so converges to
  the rightmost point; but for every percentage within 1 / 2 ^ 60 of 0 it is
  (20, 100 - 1 / 2 ^ 46), printed as \<^verbatim>\<open>20 99.99999999999999\<close>, and not the leftmost point.
\<close>

theorem gauge_arc_flag_and_end_points:
  "((\<forall>x. CHR '' '' \<notin> set (nts pf x)) \<longrightarrow>
      split_on (CHR '' '') (calculateGaugeArc pf p)
        = [''M'', nts pf (startX (gauge_values pf p)), nts pf (startY (gauge_values pf p)),
           ''A'', ''80'', ''80'', ''0'', (if 50 < p then ''1'' else ''0''), ''1'',
           nts pf (endX (gauge_values pf p)), nts pf (endY (gauge_values pf p))])
   \<and> calculateGaugeArc pf p
        = ''M '' @ nts pf (startX (gauge_values pf p)) @ '' ''
          @ nts pf (startY (gauge_values pf p)) @ '' A 80 80 0 ''
          @ (if 50 < p then ''1'' else ''0'') @ '' 1 ''
          @ nts pf (endX (gauge_values pf p)) @ '' '' @ nts pf (endY (gauge_values pf p))
   \<and> ((\<lambda>p. (endX (gauge_values exact_platform p), endY (gauge_values exact_platform p)))
        \<longlongrightarrow> (180, 100)) (at 100)
   \<and> ((\<lambda>p. (endX (gauge_values exact_platform p), endY (gauge_values exact_platform p)))
        \<longlongrightarrow> (20, 100)) (at 0)
   \<and> (\<bar>p - 100\<bar> \<le> 1 / 2 ^ 50 \<longrightarrow>
        endX (gauge_values ieee_platform p) = 180 \<and> endY (gauge_values ieee_platform p) = 100)
   \<and> ((\<lambda>p. (endX (gauge_values ieee_platform p), endY (gauge_values ieee_platform p)))
        \<longlongrightarrow> (180, 100)) (at 100)
   \<and> (\<bar>p\<bar> \<le> 1 / 2 ^ 60 \<longrightarrow>
        endX (gauge_values ieee_platform p) = 20
        \<and> endY (gauge_values ieee_platform p) = 100 - 1 / 2 ^ 46)"
proof -
  have a: "(\<forall>x. CHR '' '' \<notin> set (nts pf x)) \<longrightarrow>
      split_on (CHR '' '') (calculateGaugeArc pf p)
        = [''M'', nts pf (startX (gauge_values pf p)), nts pf (startY (gauge_values pf p)),
           ''A'', ''80'', ''80'', ''0'', (if 50 < p then ''1'' else ''0''), ''1'',
           nts pf (endX (gauge_values pf p)), nts pf (endY (gauge_values pf p))]"
    using path_tokens by blast
  have b: "((\<lambda>p. (endX (gauge_values exact_platform p), endY (gauge_values exact_platform p)))
        \<longlongrightarrow> (180, 100)) (at 100)"
    using end_point_tendsto [of 100] by simp
  have c: "((\<lambda>p. (endX (gauge_values exact_platform p), endY (gauge_values exact_platform p)))
        \<longlongrightarrow> (20, 100)) (at 0)"
    using end_point_tendsto [of 0] by simp
  have d: "\<bar>p\<bar> \<le> 1 / 2 ^ 60 \<longrightarrow>
        endX (gauge_values ieee_platform p) = 20
        \<and> endY (gauge_values ieee_platform p) = 100 - 1 / 2 ^ 46"
    using ieee_near_zero by blast
  have e: "\<bar>p - 100\<bar> \<le> 1 / 2 ^ 50 \<longrightarrow>
        endX (gauge_values ieee_platform p) = 180 \<and> endY (gauge_values ieee_platform p) = 100"
    using ieee_near_100 by blast
  from a path_string [of pf p] b c d e ieee_rightmost show ?thesis
    by blast
qed

theorem gauge_arc_flag_and_end_points_witness:
  "split_on (CHR '' '') (calculateGaugeArc exact_platform 75) ! 7 = ''1''
   \<and> split_on (CHR '' '') (calculateGaugeArc exact_platform 50) ! 7 = ''0''
   \<and> endX (gauge_values ieee_platform 0) = 20
   \<and> endY (gauge_values ieee_platform 0) = 100 - 1 / 2 ^ 46
   \<and> endX (gauge_values ieee_platform 100) = 180
   \<and> endY (gauge_values ieee_platform 100) = 100"
proof -
  have n: "\<forall>x. CHR '' '' \<notin> set (nts exact_platform x)"
    by (simp add: exact_platform_def nts_whole_no_space)
  have "split_on (CHR '' '') (calculateGaugeArc exact_platform 75)
        = [''M'', nts exact_platform (startX (gauge_values exact_platform 75)),
           nts exact_platform (startY (gauge_values exact_platform 75)),
           ''A'', ''80'', ''80'', ''0'', (if (50 :: real) < 75 then ''1'' else ''0''), ''1'',
           nts exact_platform (endX (gauge_values exact_platform 75)),
           nts exact_platform (endY (gauge_values exact_platform 75))]"
    using gauge_arc_flag_and_end_points [of exact_platform 75] n by blast
  then have "split_on (CHR '' '') (calculateGaugeArc exact_platform 75) ! 7 = ''1''"
    by simp
  moreover have "split_on (CHR '' '') (calculateGaugeArc exact_platform 50)
        = [''M'', nts exact_platform (startX (gauge_values exact_platform 50)),
           nts exact_platform (startY (gauge_values exact_platform 50)),
           ''A'', ''80'', ''80'', ''0'', (if (50 :: real) < 50 then ''1'' else ''0''), ''1'',
           nts exact_platform (endX (gauge_values exact_platform 50)),
           nts exact_platform (endY (gauge_values exact_platform 50))]"
    using gauge_arc_flag_and_end_points [of exact_platform 50] n by blast
  then have "split_on (CHR '' '') (calculateGaugeArc exact_platform 50) ! 7 = ''0''"
    by simp
  moreover have "endX (gauge_values ieee_platform 0) = 20
      \<and> endY (gauge_values ieee_platform 0) = 100 - 1 / 2 ^ 46"
    using gauge_arc_flag_and_end_points [of exact_platform 0] by simp
  moreover have "endX (gauge_values ieee_platform 100) = 180
      \<and> endY (gauge_values ieee_platform 100) = 100"
    using gauge_arc_flag_and_end_points [of exact_platform 100] by simp
  ultimately show ?thesis
    by blast
qed

text \<open>
  The claim as stated fails in double precision: at 0 the path ends in the print of
  100 - 1 / 2 ^ 46, whatever the Number-to-String conversion, and the second coordinate
  of the end point does not converge to 100 as the percentage approaches 0 from above.
\<close>

theorem gauge_end_point_not_leftmost_counterexample:
  "(\<forall>f. suffix ('' '' @ f (100 - 1 / 2 ^ 46)) (calculateGaugeArc (ieee_platform\<lparr>nts := f\<rparr>) 0))
   \<and> (100 - 1 / 2 ^ 46 :: real) < 100
   \<and> \<not> ((\<lambda>p. endY (gauge_values ieee_platform p)) \<longlongrightarrow> 100) (at_right 0)"
proof -
  have "suffix ('' '' @ f (100 - 1 / 2 ^ 46)) (calculateGaugeArc (ieee_platform\<lparr>nts := f\<rparr>) 0)"
    for f
  proof -
    have e: "endY (gauge_values (ieee_platform\<lparr>nts := f\<rparr>) 0) = 100 - 1 / 2 ^ 46"
      using ieee_near_zero(2) [of 0] by (simp add: gauge_values_nts)
    have n: "nts (ieee_platform\<lparr>nts := f\<rparr>) = f"
      by simp
    show ?thesis
      using path_suffix [of "ieee_platform\<lparr>nts := f\<rparr>" 0] by (simp only: e n)
  qed
  moreover have "(100 - 1 / 2 ^ 46 :: real) < 100"
    by simp
  ultimately show ?thesis
    using ieee_not_leftmost by blast
qed

text \<open>
  C8. For 73.5 the path that \<open>calculateGaugeArc\<close> returns has the large-arc flag 1: it is
  the template with \<^verbatim>\<open>A 80 80 0 1 1\<close> between the start point and the end point, so that
  its eighth field is \<^verbatim>\<open>1\<close> wherever no number is printed with a space in it. And
  \<open>formatPercent\<close> returns \<^verbatim>\<open>73,5\<close>, with \<^verbatim>\<open>toLocaleString\<close> as modelled by \<open>ptBR1\<close>.
\<close>

theorem example_73_5:
  "calculateGaugeArc pf 73.5
     = ''M '' @ nts pf (startX (gauge_values pf 73.5)) @ '' ''
       @ nts pf (startY (gauge_values pf 73.5)) @ '' A 80 80 0 1 1 ''
       @ nts pf (endX (gauge_values pf 73.5)) @ '' '' @ nts pf (endY (gauge_values pf 73.5))
   \<and> ((\<forall>x. CHR '' '' \<notin> set (nts pf x)) \<longrightarrow>
        length (split_on (CHR '' '') (calculateGaugeArc pf 73.5)) = 11
        \<and> split_on (CHR '' '') (calculateGaugeArc pf 73.5) ! 7 = ''1'')
   \<and> formatPercent (Num 73.5) = Inr ''73,5''"
proof -
  have "(\<forall>x. CHR '' '' \<notin> set (nts pf x)) \<longrightarrow>
        length (split_on (CHR '' '') (calculateGaugeArc pf 73.5)) = 11
        \<and> split_on (CHR '' '') (calculateGaugeArc pf 73.5) ! 7 = ''1''"
  proof
    assume "\<forall>x. CHR '' '' \<notin> set (nts pf x)"
    then show "length (split_on (CHR '' '') (calculateGaugeArc pf 73.5)) = 11
        \<and> split_on (CHR '' '') (calculateGaugeArc pf 73.5) ! 7 = ''1''"
      by (simp add: path_tokens)
  qed
  moreover have "formatPercent (Num 73.5) = Inr ''73,5''"
    by (simp add: ptBR1_def Let_def digits.simps group3.simps digit_char_def)
  ultimately show ?thesis
    using path_73_5 [of pf] by blast
qed

theorem example_73_5_witness:
  "length (split_on (CHR '' '') (calculateGaugeArc exact_platform 73.5)) = 11
   \<and> split_on (CHR '' '') (calculateGaugeArc exact_platform 73.5) ! 7 = ''1''
   \<and> formatPercent (Num 73.5) = Inr ''73,5''"
proof -
  have "\<forall>x. CHR '' '' \<notin> set (nts exact_platform x)"
    by (simp add: exact_platform_def nts_whole_no_space)
  then show ?thesis
    using example_73_5 [of exact_platform] by blast
qed

section \<open>Statements of the binders\<close>


lemma content_remove_children: "content (remove_children dep es) = content es"
  by (induction es) (simp_all add: content_def)


lemma content_setTextContent:
  "k < length d \<Longrightarrow>
     content (setTextContent k s d) = (content d)[k := (content d ! k)\<lparr>textContent := s\<rparr>]"
proof -
  assume k: "k < length d"
  have "content (setTextContent k s d)
      = take k (content d) @ [(content d ! k)\<lparr>textContent := s\<rparr>] @ drop (Suc k) (content d)"
    using k
    by (simp add: setTextContent_def content_remove_children [unfolded content_def] content_def
        take_map drop_map)
  also have "\<dots> = (content d)[k := (content d ! k)\<lparr>textContent := s\<rparr>]"
    using k by (simp add: upd_conv_take_nth_drop content_def)
  finally show ?thesis .
qed

lemma length_content: "length (content d) = length d"
  by (simp add: content_def)

lemma idattrs_content: "idattrs d = map (\<lambda>e. attrs e ''id'') (content d)"
  by (simp add: idattrs_def content_def comp_def)

lemma content_nth: "m < length d \<Longrightarrow> content d ! m = (d ! m)\<lparr>attached := True\<rparr>"
  by (simp add: content_def)


lemma idattrs_nth:
  "idattrs d' = idattrs d \<Longrightarrow> m < length d \<Longrightarrow> attrs (d' ! m) ''id'' = attrs (d ! m) ''id''"
proof -
  assume a: "idattrs d' = idattrs d" and m: "m < length d"
  from a have "length d' = length d"
    by (auto simp: idattrs_def dest: map_eq_imp_length_eq)
  with a m show ?thesis
    by (auto simp: idattrs_def dest!: arg_cong [where f = "\<lambda>xs. xs ! m"])
qed

text \<open>What one statement does to the elements, whether in the tree or not.\<close>

lemma content_updateElement:
  "content (updateElement f i v d) =
     (case getElementById i d of
        None \<Rightarrow> content d
      | Some k \<Rightarrow> (content d)[k := (content d ! k)\<lparr>textContent := domString f v\<rparr>])"
  by (auto simp: updateElement_def content_setTextContent split: option.split
      dest: getElementById_Some)

lemma swap_updates:
  "e\<lparr>style_width := x, attached := True\<rparr> = e\<lparr>attached := True, style_width := x\<rparr>"
  by (cases e) simp

lemma content_writeBar:
  assumes "k < length d"
  shows "content (writeBar f k perc v d) =
     (content d)[k := (content d ! k)\<lparr>style_width := toStr f perc @ ''%'',
        textContent := domString f v\<rparr>]"
proof -
  let ?d = "d[k := (d ! k)\<lparr>style_width := toStr f perc @ ''%''\<rparr>]"
  have "content ?d = (content d)[k := (content d ! k)\<lparr>style_width := toStr f perc @ ''%''\<rparr>]"
    using assms by (simp add: content_def map_update swap_updates)
  then show ?thesis
    using assms by (simp add: writeBar_def content_setTextContent length_content)
qed

lemma content_setAttribute:
  assumes "k < length d"
  shows "content (setAttribute k a x d) =
     (content d)[k := (content d ! k)\<lparr>attrs := (attrs (d ! k))(a \<mapsto> x)\<rparr>]"
  using assms by (simp add: setAttribute_def content_def map_update) (cases "d ! k", simp)

text \<open>Documents that differ in the elements of some ids only.\<close>

lemma same_but_refl: "same_but T d d"
  by (simp add: same_but_def)

lemma same_but_mono: "same_but T d d' \<Longrightarrow> T \<subseteq> U \<Longrightarrow> same_but U d d'"
  by (auto simp: same_but_def)

lemma same_but_trans:
  assumes "same_but T d da" and "same_but T da db"
  shows "same_but T d db"
proof -
  have l: "length da = length d" and i: "idattrs da = idattrs d"
    using assms(1) by (simp_all add: same_but_def)
  have "content db ! m = content d ! m"
    if m: "m < length d" and n: "attrs (d ! m) ''id'' \<notin> Some ` T" for m
  proof -
    have "attrs (da ! m) ''id'' = attrs (d ! m) ''id''"
      using i m by (rule idattrs_nth)
    with n m l assms(2) have "content db ! m = content da ! m"
      by (simp add: same_but_def)
    moreover from n m assms(1) have "content da ! m = content d ! m"
      by (simp add: same_but_def)
    ultimately show ?thesis
      by simp
  qed
  with assms l i show ?thesis
    by (simp add: same_but_def)
qed

lemma same_but_update:
  assumes "k < length d" and "attrs (d ! k) ''id'' = Some i" and "i \<in> T"
    and "content d' = (content d)[k := e]" and "attrs e ''id'' = Some i"
  shows "same_but T d d'"
proof -
  have l: "length d' = length d"
    using assms(4) length_content [of d'] length_content [of d] by simp
  have "map (\<lambda>e. attrs e ''id'') ((content d)[k := e]) = map (\<lambda>e. attrs e ''id'') (content d)"
    using assms(1,2,5) by (simp add: map_update content_nth list_update_same_conv length_content)
  then have "idattrs d' = idattrs d"
    using assms(4) by (simp add: idattrs_content)
  moreover have "content d' ! m = content d ! m"
    if "m < length d" and "attrs (d ! m) ''id'' \<notin> Some ` T" for m
  proof -
    from that assms(2,3) have "m \<noteq> k" by auto
    then show ?thesis
      using assms(4) by simp
  qed
  ultimately show ?thesis
    using l by (simp add: same_but_def)
qed

lemma same_but_updateElement: "i \<in> T \<Longrightarrow> same_but T d (updateElement f i v d)"
proof (cases "getElementById i d")
  case None
  then show ?thesis
    by (simp add: updateElement_def same_but_refl)
next
  case (Some k)
  assume i: "i \<in> T"
  have k: "k < length d" "attrs (d ! k) ''id'' = Some i"
    using getElementById_Some [OF Some] by simp_all
  show ?thesis
  proof (rule same_but_update [OF k i])
    show "content (updateElement f i v d)
        = (content d)[k := (content d ! k)\<lparr>textContent := domString f v\<rparr>]"
      using Some by (simp add: content_updateElement)
    show "attrs ((content d ! k)\<lparr>textContent := domString f v\<rparr>) ''id'' = Some i"
      using k by (simp add: content_nth)
  qed
qed

lemma same_but_writeBar:
  assumes "k < length d" and "attrs (d ! k) ''id'' = Some i" and "i \<in> T"
  shows "same_but T d (writeBar f k perc v d)"
proof (rule same_but_update [OF assms])
  show "content (writeBar f k perc v d)
      = (content d)[k := (content d ! k)\<lparr>style_width := toStr f perc @ ''%'',
          textContent := domString f v\<rparr>]"
    using assms(1) by (rule content_writeBar)
  show "attrs ((content d ! k)\<lparr>style_width := toStr f perc @ ''%'',
      textContent := domString f v\<rparr>) ''id'' = Some i"
    using assms(1,2) by (simp add: content_nth)
qed

lemma same_but_setBar: "i \<in> T \<Longrightarrow> same_but T d (setBar f i perc v d)"
proof (cases "getElementById i d")
  case None
  then show ?thesis
    by (simp add: setBar_def same_but_refl)
next
  case (Some k)
  assume i: "i \<in> T"
  have k: "k < length d" "attrs (d ! k) ''id'' = Some i"
    using getElementById_Some [OF Some] by simp_all
  show ?thesis
    using Some same_but_writeBar [OF k i] by (simp add: setBar_def)
qed

lemma same_but_setGauge: "''gauge-arc'' \<in> T \<Longrightarrow> same_but T d (setGauge pf x d)"
proof (cases "getElementById ''gauge-arc'' d")
  case None
  then show ?thesis
    by (simp add: setGauge_def same_but_refl)
next
  case (Some k)
  assume i: "''gauge-arc'' \<in> T"
  have k: "k < length d" "attrs (d ! k) ''id'' = Some ''gauge-arc''"
    using getElementById_Some [OF Some] by simp_all
  show ?thesis
  proof (cases x)
    case None
    with Some show ?thesis
      by (simp add: setGauge_def same_but_refl)
  next
    case (Some y)
    have "same_but T d (setAttribute k ''d'' (calculateGaugeArc pf y) d)"
    proof (rule same_but_update [OF k i])
      show "content (setAttribute k ''d'' (calculateGaugeArc pf y) d)
          = (content d)[k := (content d ! k)\<lparr>attrs := (attrs (d ! k))(''d'' \<mapsto> calculateGaugeArc pf y)\<rparr>]"
        using k(1) by (rule content_setAttribute)
      show "attrs ((content d ! k)\<lparr>attrs := (attrs (d ! k))(''d'' \<mapsto> calculateGaugeArc pf y)\<rparr>) ''id''
          = Some ''gauge-arc''"
        using k by simp
    qed
    with Some \<open>getElementById ''gauge-arc'' d = Some k\<close> show ?thesis
      by (simp add: setGauge_def)
  qed
qed

text \<open>The elements held by \<open>updateStatusBar\<close>.\<close>

lemma held_lookup: "held T (\<lambda>j. getElementById j d) d"
  using getElementById_Some by (auto simp: held_def)

lemma held_same_but: "held T r d \<Longrightarrow> same_but U d d' \<Longrightarrow> held T r d'"
proof -
  assume h: "held T r d" and s: "same_but U d d'"
  have "k < length d' \<and> attrs (d' ! k) ''id'' = Some j" if "r j = Some k" and "j \<in> T" for j k
  proof -
    from h that have k: "k < length d" "attrs (d ! k) ''id'' = Some j"
      by (auto simp: held_def)
    from s have "length d' = length d" "idattrs d' = idattrs d"
      by (simp_all add: same_but_def)
    with k idattrs_nth [of d' d k] show ?thesis
      by simp
  qed
  then show ?thesis
    by (simp add: held_def)
qed

lemma same_but_writeBars:
  assumes "held (fst ` set bars) r d"
  shows "same_but (fst ` set bars) d
    (writeBars f (map (\<lambda>(j, perc, v). (r j, perc, v)) bars) d)"
  using assms
proof (induction bars arbitrary: d)
  case Nil
  then show ?case
    by (simp add: same_but_refl)
next
  case (Cons b bars)
  obtain j perc v where b: "b = (j, perc, v)"
    by (cases b)
  let ?T = "fst ` set (b # bars)"
  let ?d = "case r j of None \<Rightarrow> d | Some k \<Rightarrow> writeBar f k perc v d"
  have one: "same_but ?T d ?d"
  proof (cases "r j")
    case None
    then show ?thesis
      by (simp add: same_but_refl)
  next
    case (Some k)
    with Cons.prems b have "k < length d" "attrs (d ! k) ''id'' = Some j"
      by (auto simp: held_def)
    moreover have "j \<in> ?T"
      using b by simp
    ultimately have "same_but ?T d (writeBar f k perc v d)"
      by (rule same_but_writeBar)
    with Some show ?thesis
      by simp
  qed
  have "held ?T r ?d"
    using Cons.prems one by (rule held_same_but)
  then have "held (fst ` set bars) r ?d"
    by (auto simp: held_def)
  then have "same_but (fst ` set bars) ?d
    (writeBars f (map (\<lambda>(j, perc, v). (r j, perc, v)) bars) ?d)"
    by (rule Cons.IH)
  then have "same_but ?T ?d (writeBars f (map (\<lambda>(j, perc, v). (r j, perc, v)) bars) ?d)"
    by (rule same_but_mono) auto
  with one have "same_but ?T d (writeBars f (map (\<lambda>(j, perc, v). (r j, perc, v)) bars) ?d)"
    by (rule same_but_trans)
  then show ?case
    using b by simp
qed

lemma same_but_setBars: "same_but (fst ` set bars) d (setBars f bars d)"
  unfolding setBars_def using held_lookup by (rule same_but_writeBars)



text \<open>One statement, and a list of statements.\<close>

lemma exec_same_but:
  assumes "exec pf w d = (c, d')"
  shows "same_but (set (targets w)) d d'"
proof (cases w)
  case (Plain i v)
  with assms same_but_updateElement [of i "{i}" d "nts pf" v] show ?thesis
    by auto
next
  case (Percent i v wrap)
  show ?thesis
  proof (cases "formatPercent v")
    case (Inl err)
    with assms Percent show ?thesis
      by (auto simp: same_but_refl)
  next
    case (Inr p)
    with assms Percent same_but_updateElement [of i "{i}" d "nts pf" "Str (wrap p)"] show ?thesis
      by auto
  qed
next
  case (Bar i perc v)
  with assms same_but_setBar [of i "{i}" d "nts pf" perc v] show ?thesis
    by auto
next
  case (Bars bars)
  with assms same_but_setBars [of bars d "nts pf"] show ?thesis
    by auto
next
  case (Gauge x)
  with assms same_but_setGauge [of "{''gauge-arc''}" d pf x] show ?thesis
    by auto
qed

lemma exec_throw: "exec pf w d = (Throw e, d') \<Longrightarrow> d' = d"
  by (cases w) (auto split: sum.splits)




lemma run_same_but: "same_but (set (written ws)) d (snd (run pf ws d))"
proof (induction ws arbitrary: d)
  case Nil
  then show ?case by (simp add: same_but_refl)
next
  case (Cons w ws)
  obtain c d1 where x: "exec pf w d = (c, d1)" by (cases "exec pf w d")
  have one: "same_but (set (written (w # ws))) d d1"
    using exec_same_but [OF x] by (rule same_but_mono) (simp add: written_def)
  show ?case
  proof (cases c)
    case Normal
    have "same_but (set (written (w # ws))) d1 (snd (run pf ws d1))"
      using Cons.IH [of d1] by (rule same_but_mono) (simp add: written_def)
    with one have "same_but (set (written (w # ws))) d (snd (run pf ws d1))"
      by (rule same_but_trans)
    with x Normal show ?thesis by simp
  next
    case (Throw e)
    with x one show ?thesis by simp
  qed
qed

lemma run_length: "length (snd (run pf ws d)) = length d"
  using run_same_but [of ws d pf] by (simp add: same_but_def)










section \<open>The element ids of a binder\<close>

lemma digits_nonempty: "digits n \<noteq> []"
  by (subst digits.simps) simp

lemma digit_char_inj: "m < 10 \<Longrightarrow> n < 10 \<Longrightarrow> digit_char m = digit_char n \<Longrightarrow> m = n"
proof -
  assume m: "m < 10" and n: "n < 10" and c: "digit_char m = digit_char n"
  have d: "distinct ''0123456789''"
    by simp
  have l: "m < length ''0123456789''" "n < length ''0123456789''"
    using m n by simp_all
  from c show "m = n"
    using nth_eq_iff_index_eq [OF d l] by (simp add: digit_char_def)
qed

lemma digits_small: "n < 10 \<Longrightarrow> digits n = [digit_char n]"
  by (subst digits.simps) simp

lemma digits_large: "\<not> n < 10 \<Longrightarrow> digits n = digits (n div 10) @ [digit_char (n mod 10)]"
  by (subst digits.simps) simp

lemma digits_inj: "digits m = digits n \<Longrightarrow> m = n"
proof (induction m arbitrary: n rule: digits.induct)
  case (1 m)
  show ?case
  proof (cases "m < 10")
    case True
    show ?thesis
    proof (cases "n < 10")
      case n: True
      with True "1.prems" show ?thesis
        by (simp add: digits_small digit_char_inj)
    next
      case False
      with True "1.prems" have "digits (n div 10) = []"
        by (simp add: digits_small digits_large)
      then show ?thesis by (simp add: digits_nonempty)
    qed
  next
    case False
    show ?thesis
    proof (cases "n < 10")
      case True
      with False "1.prems" have "digits (m div 10) = []"
        by (simp add: digits_small digits_large)
      then show ?thesis by (simp add: digits_nonempty)
    next
      case n: False
      with False "1.prems" have e: "digits (m div 10) = digits (n div 10)"
        and c: "digit_char (m mod 10) = digit_char (n mod 10)"
        by (simp_all add: digits_large)
      from False e have "m div 10 = n div 10"
        by (rule "1.IH")
      moreover from c have "m mod 10 = n mod 10"
        by (intro digit_char_inj) simp_all
      ultimately show ?thesis
        by (metis div_mult_mod_eq)
    qed
  qed
qed

lemma same_suffix: "p @ digits a @ s = p @ digits b @ s \<Longrightarrow> a = b"
  by (simp add: digits_inj)

lemma other_suffix:
  "s \<noteq> [] \<Longrightarrow> s' \<noteq> [] \<Longrightarrow> last s \<noteq> last s' \<Longrightarrow> p @ x @ s \<noteq> p @ y @ s'"
proof
  assume a: "s \<noteq> []" "s' \<noteq> []" "last s \<noteq> last s'" and e: "p @ x @ s = p @ y @ s'"
  from e have "last (p @ x @ s) = last (p @ y @ s')" by simp
  with a show False by simp
qed





















section \<open>Missing fields\<close>




lemma no_report_top: "top_unidades_recomendacoes st = None \<Longrightarrow> body Relatorios pf st = []"
  by (simp add: relatoriosSteps_def)





















end
